theory Spec2Isabelle
  imports Main "HOL-Library.Sublist"
begin

section \<open>JavaScript values, strings and plain objects\<close>

text \<open>
  The background script of the extension (class \<open>BrowserActivityMonitor\<close>) works on
  plain JavaScript objects whose fields hold strings, integral numbers, \<open>null\<close> or
  \<open>undefined\<close>. Values are modelled by the datatype below. Numbers are integers
  (every number the script stores is a port, a status code, a length or an identifier);
  \<open>JNum n\<close> stands for a JavaScript number only while \<open>n\<close> is below \<open>2^53\<close> in
  magnitude, where a number holds every integer exactly and prints it in plain decimal.
  \<open>JNaN\<close> is the result of a failed \<open>parseInt\<close>. Strings are lists of 8-bit
  characters, so the model covers ASCII text.
\<close>

datatype jsval = JUndefined | JNull | JBool bool | JNum int | JNaN | JStr string

text \<open>Truthiness, as tested by \<open>if (v)\<close>, \<open>v || d\<close> and \<open>v ? a : b\<close>.\<close>

fun truthy :: "jsval \<Rightarrow> bool" where
  "truthy JUndefined = False"
| "truthy JNull = False"
| "truthy (JBool b) = b"
| "truthy (JNum n) = (n \<noteq> 0)"
| "truthy JNaN = False"
| "truthy (JStr s) = (s \<noteq> [])"

text \<open>The operator \<open>v || d\<close>.\<close>

definition js_or :: "jsval \<Rightarrow> jsval \<Rightarrow> jsval" where
  "js_or v d = (if truthy v then v else d)"

text \<open>Decimal rendering of a number, as string interpolation and property keys use it.\<close>

fun natToString :: "nat \<Rightarrow> string" where
  "natToString n =
     (if n < 10 then [''0123456789'' ! n]
      else natToString (n div 10) @ [''0123456789'' ! (n mod 10)])"

declare natToString.simps [simp del]

definition intToString :: "int \<Rightarrow> string" where
  "intToString i = (if i < 0 then CHR ''-'' # natToString (nat (- i)) else natToString (nat i))"

text \<open>The abstract operation ToString behind \<open>`${v}`\<close> and \<open>obj[v]\<close>.\<close>

fun js_toString :: "jsval \<Rightarrow> string" where
  "js_toString JUndefined = ''undefined''"
| "js_toString JNull = ''null''"
| "js_toString (JBool b) = (if b then ''true'' else ''false'')"
| "js_toString (JNum n) = intToString n"
| "js_toString JNaN = ''NaN''"
| "js_toString (JStr s) = s"

text \<open>
  A plain object is an association list: the order of the keys is the order of
  \<open>Object.keys\<close> (insertion order; no field name of a record is an integer index).
  Reading a field that the object lacks yields \<open>undefined\<close>.
\<close>

type_synonym jsobj = "(string \<times> jsval) list"

definition get :: "jsobj \<Rightarrow> string \<Rightarrow> jsval" where
  "get obj k = (case map_of obj k of None \<Rightarrow> JUndefined | Some v \<Rightarrow> v)"

definition keys :: "jsobj \<Rightarrow> string list" where
  "keys obj = map fst obj"

text \<open>Assignment \<open>obj[k] = v\<close>: an existing key keeps its place, a new key goes last.\<close>

fun set_field :: "string \<Rightarrow> jsval \<Rightarrow> jsobj \<Rightarrow> jsobj" where
  "set_field k v [] = [(k, v)]"
| "set_field k v (p # ps) = (if fst p = k then (k, v) # ps else p # set_field k v ps)"

text \<open>The object spread \<open>{ ...a, ...b }\<close>.\<close>

definition spread :: "jsobj \<Rightarrow> jsobj \<Rightarrow> jsobj" where
  "spread a b = foldl (\<lambda>acc p. set_field (fst p) (snd p) acc) a b"

text \<open>\<open>Array.prototype.join\<close> on an array of strings.\<close>

fun join :: "string \<Rightarrow> string list \<Rightarrow> string" where
  "join sep [] = []"
| "join sep [x] = x"
| "join sep (x # y # ys) = x @ sep @ join sep (y # ys)"

text \<open>\<open>String.prototype.split\<close> with a one-character separator.\<close>

fun str_split :: "char \<Rightarrow> string \<Rightarrow> string list" where
  "str_split c [] = [[]]"
| "str_split c (x # xs) =
     (if x = c then [] # str_split c xs
      else (case str_split c xs of
              [] \<Rightarrow> [[x]]
            | y # ys \<Rightarrow> (x # y) # ys))"

text \<open>\<open>String.prototype.toLowerCase\<close> on ASCII text.\<close>

definition lower_char :: "char \<Rightarrow> char" where
  "lower_char c =
     (case map_of (zip ''ABCDEFGHIJKLMNOPQRSTUVWXYZ'' ''abcdefghijklmnopqrstuvwxyz'') c of
        None \<Rightarrow> c
      | Some l \<Rightarrow> l)"

definition toLowerCase :: "string \<Rightarrow> string" where
  "toLowerCase s = map lower_char s"

text \<open>
  \<open>parseInt(s)\<close> without a radix: leading white space is skipped, a sign is read, the
  prefix \<open>0x\<close> selects radix 16, and the longest prefix of digits is the value; no digit
  at all gives \<open>NaN\<close>.
\<close>

definition isWhiteSpace :: "char \<Rightarrow> bool" where
  "isWhiteSpace c = (c \<in> set [CHR 0x09, CHR 0x0A, CHR 0x0B, CHR 0x0C, CHR 0x0D, CHR 0x20])"

definition digitValue :: "char \<Rightarrow> nat option" where
  "digitValue c =
     map_of (zip ''0123456789abcdefABCDEF''
               [0, 1, 2, 3, 4, 5, 6, 7, 8, 9, 10, 11, 12, 13, 14, 15, 10, 11, 12, 13, 14, 15]) c"

definition isDigit :: "nat \<Rightarrow> char \<Rightarrow> bool" where
  "isDigit radix c = (case digitValue c of None \<Rightarrow> False | Some d \<Rightarrow> d < radix)"

definition digitsValue :: "nat \<Rightarrow> string \<Rightarrow> nat" where
  "digitsValue radix ds =
     foldl (\<lambda>acc c. acc * radix + (case digitValue c of None \<Rightarrow> 0 | Some d \<Rightarrow> d)) 0 ds"

definition parseInt :: "string \<Rightarrow> jsval" where
  "parseInt s =
     (let t = dropWhile isWhiteSpace s;
          neg = (take 1 t = ''-'');
          t1 = (if take 1 t = ''-'' \<or> take 1 t = ''+'' then drop 1 t else t);
          hex = (take 2 t1 = ''0x'' \<or> take 2 t1 = ''0X'');
          radix = (if hex then 16 else 10);
          t2 = (if hex then drop 2 t1 else t1);
          ds = takeWhile (isDigit radix) t2
      in if ds = [] then JNaN
         else JNum (if neg then - int (digitsValue radix ds) else int (digitsValue radix ds)))"

section \<open>URL field derivation\<close>

text \<open>
  \<open>new URL(url)\<close> is the platform's parser; the script reads four properties of the
  object it returns and catches its exception. The parser is a parameter \<open>P\<close> of the
  model: \<open>P u = None\<close> when the constructor throws.
\<close>

record url =
  protocol :: string
  hostname :: string
  port :: string
  pathname :: string

type_synonym url_parser = "string \<Rightarrow> url option"

definition extractProtocol :: "url_parser \<Rightarrow> string \<Rightarrow> string" where
  "extractProtocol P u =
     (case P u of
        Some urlObj \<Rightarrow> remove1 CHR '':'' (protocol urlObj)
      | None \<Rightarrow> ''unknown'')"

definition extractPort :: "url_parser \<Rightarrow> string \<Rightarrow> jsval" where
  "extractPort P u =
     (case P u of
        Some urlObj \<Rightarrow>
          (if port urlObj \<noteq> [] then parseInt (port urlObj)
           else (if protocol urlObj = ''https:'' then JNum 443 else JNum 80))
      | None \<Rightarrow> JNull)"

definition extractFilename :: "url_parser \<Rightarrow> string \<Rightarrow> string" where
  "extractFilename P u =
     (case P u of
        Some urlObj \<Rightarrow>
          (let seg = last (str_split CHR ''/'' (pathname urlObj))
           in if seg \<noteq> [] then seg else [])
      | None \<Rightarrow> [])"

definition extractDomain :: "url_parser \<Rightarrow> string \<Rightarrow> string" where
  "extractDomain P u =
     (case P u of
        Some urlObj \<Rightarrow> hostname urlObj
      | None \<Rightarrow> ''unknown'')"



section \<open>Header lookup\<close>

text \<open>
  A header array holds objects with a \<open>name\<close> and a \<open>value\<close>; an element may be
  \<open>null\<close> (\<open>None\<close>), and either property may be missing. The array itself may be
  missing or not an array (\<open>None\<close>).
\<close>

record header =
  hname :: "string option"
  hvalue :: "string option"

type_synonym headers = "header option list option"

definition header_matches :: "string \<Rightarrow> header option \<Rightarrow> bool" where
  "header_matches nm h =
     (case h of
        None \<Rightarrow> False
      | Some e \<Rightarrow>
          (case hname e of
             None \<Rightarrow> False
           | Some n \<Rightarrow> n \<noteq> [] \<and> toLowerCase n = toLowerCase nm))"

definition getHeaderValue :: "headers \<Rightarrow> string \<Rightarrow> jsval" where
  "getHeaderValue hs nm =
     (case hs of
        None \<Rightarrow> JStr []
      | Some arr \<Rightarrow>
          (case find (header_matches nm) arr of
             Some (Some e) \<Rightarrow> (case hvalue e of None \<Rightarrow> JUndefined | Some v \<Rightarrow> JStr v)
           | _ \<Rightarrow> JStr []))"

section \<open>The monitor: transient request data, record store, backup\<close>

text \<open>
  The three \<open>chrome.webRequest\<close> events deliver a \<open>details\<close> object each. A property
  that the platform leaves out is \<open>None\<close>.
\<close>

record request_details =
  d_method :: "string option"
  d_url :: "string option"
  d_tabId :: "int option"
  d_frameId :: "int option"
  d_requestHeaders :: headers

record response_details =
  d_statusCode :: "int option"
  d_statusLine :: "string option"
  d_responseHeaders :: headers

record completed_details =
  c_requestHeaders :: headers

definition of_str :: "string option \<Rightarrow> jsval" where
  "of_str x = (case x of None \<Rightarrow> JUndefined | Some s \<Rightarrow> JStr s)"

definition of_num :: "int option \<Rightarrow> jsval" where
  "of_num x = (case x of None \<Rightarrow> JUndefined | Some n \<Rightarrow> JNum n)"

text \<open>\<open>details.requestHeaders || []\<close>.\<close>

definition headers_or_empty :: "headers \<Rightarrow> header option list" where
  "headers_or_empty hs = (case hs of None \<Rightarrow> [] | Some arr \<Rightarrow> arr)"

text \<open>
  The state of a \<open>BrowserActivityMonitor\<close>:
  \<^item> \<open>isMonitoring\<close> and \<open>disabledDomains\<close> are its fields of these names;
  \<^item> \<open>pending\<close> is the part of \<open>chrome.storage.local\<close> under the keys
    made of \<open>req_\<close> and a request identifier, indexed by that identifier;
  \<^item> \<open>db\<close> is the object store \<open>network_requests\<close>, in insertion order (the
    identifier that the store's key generator adds to each object is left out);
  \<^item> \<open>backup\<close> is the array kept under \<open>browserActivityData\<close> in \<open>localStorage\<close>.
  Writes to \<open>chrome.storage.local\<close> are taken to succeed. Whether \<open>store.add\<close>
  succeeds and whether \<open>localStorage\<close> can be used are inputs of the completion event
  (\<open>add_ok\<close>, \<open>ls_ok\<close>), since the script has a branch for each failure.
\<close>

record monitor =
  isMonitoring :: bool
  disabledDomains :: "string set"
  pending :: "string \<rightharpoonup> jsobj"
  db :: "jsobj list"
  backup :: "jsobj list"

text \<open>The monitor after its constructor and \<open>init\<close>, with nothing loaded.\<close>

definition initial :: monitor where
  "initial = \<lparr>isMonitoring = True, disabledDomains = {}, pending = Map.empty,
               db = [], backup = []\<rparr>"

definition storeRequestData :: "monitor \<Rightarrow> string \<Rightarrow> jsobj \<Rightarrow> monitor" where
  "storeRequestData s requestId data = s\<lparr>pending := (pending s)(requestId \<mapsto> data)\<rparr>"

definition getRequestData :: "monitor \<Rightarrow> string \<Rightarrow> jsobj option" where
  "getRequestData s requestId = pending s requestId"

definition updateRequestData :: "monitor \<Rightarrow> string \<Rightarrow> jsobj \<Rightarrow> monitor" where
  "updateRequestData s requestId data =
     (case getRequestData s requestId of
        Some existing \<Rightarrow> s\<lparr>pending := (pending s)(requestId \<mapsto> spread existing data)\<rparr>
      | None \<Rightarrow> s)"

definition cleanupRequestData :: "monitor \<Rightarrow> string \<Rightarrow> monitor" where
  "cleanupRequestData s requestId = s\<lparr>pending := (pending s)(requestId := None)\<rparr>"

text \<open>
  \<open>handleRequest\<close>. \<open>J\<close> is \<open>JSON.stringify\<close> on a header array, \<open>win\<close> the
  window identifier that \<open>chrome.tabs.get\<close> reports for the tab (\<open>None\<close> when the
  lookup fails), \<open>now\<close> the time stamp \<open>new Date().toISOString()\<close>.
\<close>

definition url_arg :: "request_details \<Rightarrow> string" where
  "url_arg d = js_toString (of_str (d_url d))"

definition requestData_of ::
  "url_parser \<Rightarrow> (header option list \<Rightarrow> string) \<Rightarrow> request_details \<Rightarrow> int option \<Rightarrow> string
   \<Rightarrow> jsobj" where
  "requestData_of P J d win now =
     [(''method'', js_or (of_str (d_method d)) (JStr ''UNKNOWN'')),
      (''protocol'', JStr (extractProtocol P (url_arg d))),
      (''port'', extractPort P (url_arg d)),
      (''url'', js_or (of_str (d_url d)) (JStr [])),
      (''filename'', JStr (extractFilename P (url_arg d))),
      (''domain'', JStr (extractDomain P (url_arg d))),
      (''tab_id'', js_or (of_num (d_tabId d)) (JNum (- 1))),
      (''window_id'',
         (if d_frameId d = Some 0 then (case win of None \<Rightarrow> JNull | Some w \<Rightarrow> JNum w)
          else JNull)),
      (''request_headers'', JStr (J (headers_or_empty (d_requestHeaders d)))),
      (''timestamp'', JStr now)]"

definition handleRequest ::
  "url_parser \<Rightarrow> (header option list \<Rightarrow> string) \<Rightarrow> monitor \<Rightarrow> string \<Rightarrow> request_details
   \<Rightarrow> int option \<Rightarrow> string \<Rightarrow> monitor" where
  "handleRequest P J s requestId d win now =
     (if \<not> isMonitoring s then s
      else if extractDomain P (url_arg d) \<in> disabledDomains s then s
      else storeRequestData s requestId (requestData_of P J d win now))"

text \<open>\<open>handleResponse\<close>.\<close>

definition responseData_of :: "(header option list \<Rightarrow> string) \<Rightarrow> response_details \<Rightarrow> jsobj" where
  "responseData_of J d =
     (let responseHeaders = headers_or_empty (d_responseHeaders d) in
      [(''response_code'', js_or (of_num (d_statusCode d)) (JNum 0)),
       (''response_message'', js_or (of_str (d_statusLine d)) (JStr [])),
       (''content_type'', getHeaderValue (Some responseHeaders) ''content-type''),
       (''content_length'',
          js_or (parseInt (js_toString (getHeaderValue (Some responseHeaders) ''content-length'')))
            (JNum 0)),
       (''server'', getHeaderValue (Some responseHeaders) ''server''),
       (''date'', getHeaderValue (Some responseHeaders) ''date''),
       (''location'', getHeaderValue (Some responseHeaders) ''location''),
       (''vary'', getHeaderValue (Some responseHeaders) ''vary''),
       (''response_headers'', JStr (J responseHeaders))])"

definition handleResponse ::
  "(header option list \<Rightarrow> string) \<Rightarrow> monitor \<Rightarrow> string \<Rightarrow> response_details \<Rightarrow> monitor" where
  "handleResponse J s requestId d =
     (if \<not> isMonitoring s then s
      else updateRequestData s requestId (responseData_of J d))"

text \<open>
  \<open>saveToLocalStorageBackup\<close>: the stored array with the record pushed, cut from the
  front to its last 1000 elements. When \<open>localStorage\<close> throws, the exception is
  caught and the stored array stays as it was.
\<close>

definition saveToLocalStorageBackup :: "bool \<Rightarrow> jsobj list \<Rightarrow> jsobj \<Rightarrow> jsobj list" where
  "saveToLocalStorageBackup ls_ok stored data =
     (if \<not> ls_ok then stored
      else (let existingData = stored @ [data] in
            if length existingData > 1000
            then drop (length existingData - 1000) existingData
            else existingData))"

text \<open>
  \<open>storeCompleteRequest\<close> copies 26 named fields of its argument into a new object and
  adds it to the store. The promise is rejected (\<open>None\<close>) when the store refuses the
  object; only a successful add reaches the backup.
\<close>

definition record_fields :: "string list" where
  "record_fields =
     [''method'', ''protocol'', ''port'', ''url'', ''filename'', ''domain'', ''user_agent'',
      ''referer'', ''origin'', ''cookie'', ''vary'', ''x_forwarded_for'', ''content_type'',
      ''response_code'', ''response_message'', ''date'', ''server'', ''content_length'',
      ''location'', ''response_preview'', ''response_checksum'', ''tab_id'', ''window_id'',
      ''request_headers'', ''response_headers'', ''timestamp'']"

definition stored_record :: "jsobj \<Rightarrow> jsobj" where
  "stored_record data = map (\<lambda>f. (f, get data f)) record_fields"

definition storeCompleteRequest :: "bool \<Rightarrow> bool \<Rightarrow> monitor \<Rightarrow> jsobj \<Rightarrow> monitor option" where
  "storeCompleteRequest add_ok ls_ok s data =
     (let requestData = stored_record data in
      if add_ok
      then Some (s\<lparr>db := db s @ [requestData],
                    backup := saveToLocalStorageBackup ls_ok (backup s) requestData\<rparr>)
      else None)"

text \<open>
  \<open>handleCompleted\<close>. \<open>getResponseBody\<close> returns \<open>null\<close> on every call, so the
  branch that would set \<open>response_preview\<close> and \<open>response_checksum\<close> is never taken.
  When \<open>storeCompleteRequest\<close> is rejected, control passes to the \<open>catch\<close> clause and
  \<open>cleanupRequestData\<close> is not reached.

  The handler awaits \<open>getRequestData\<close>, \<open>storeCompleteRequest\<close> and
  \<open>cleanupRequestData\<close> in turn, and nothing serializes the calls for one key: between
  two of these steps another handler may run. The steps are modelled one by one;
  \<open>handleCompleted\<close> is a call whose steps run with no other step in between, and
  \<open>handleCompleted_overlapping\<close> is a pair of calls for one key, both accepted by the
  store, in which the second call reads the pending record before the first removes it.
\<close>

definition additionalHeaders_of :: "completed_details \<Rightarrow> jsobj" where
  "additionalHeaders_of d =
     (let requestHeaders = headers_or_empty (c_requestHeaders d) in
      [(''user_agent'', getHeaderValue (Some requestHeaders) ''user-agent''),
       (''referer'', getHeaderValue (Some requestHeaders) ''referer''),
       (''origin'', getHeaderValue (Some requestHeaders) ''origin''),
       (''cookie'', getHeaderValue (Some requestHeaders) ''cookie''),
       (''x_forwarded_for'', getHeaderValue (Some requestHeaders) ''x-forwarded-for'')])"

datatype lookup = Gated | Absent | Found jsobj

definition completed_lookup :: "monitor \<Rightarrow> string \<Rightarrow> lookup" where
  "completed_lookup s requestId =
     (if \<not> isMonitoring s then Gated
      else (case getRequestData s requestId of
              Some requestData \<Rightarrow> Found requestData
            | None \<Rightarrow> Absent))"

definition completed_store ::
  "monitor \<Rightarrow> jsobj \<Rightarrow> completed_details \<Rightarrow> bool \<Rightarrow> bool \<Rightarrow> monitor option" where
  "completed_store s requestData d add_ok ls_ok =
     (let completeData = spread requestData (additionalHeaders_of d) in
      storeCompleteRequest add_ok ls_ok s completeData)"

definition handleCompleted ::
  "monitor \<Rightarrow> string \<Rightarrow> completed_details \<Rightarrow> bool \<Rightarrow> bool \<Rightarrow> monitor" where
  "handleCompleted s requestId d add_ok ls_ok =
     (case completed_lookup s requestId of
        Gated \<Rightarrow> s
      | Found requestData \<Rightarrow>
          (case completed_store s requestData d add_ok ls_ok of
             Some s' \<Rightarrow> cleanupRequestData s' requestId
           | None \<Rightarrow> s)
      | Absent \<Rightarrow> cleanupRequestData s requestId)"

definition handleCompleted_overlapping ::
  "monitor \<Rightarrow> string \<Rightarrow> completed_details \<Rightarrow> completed_details \<Rightarrow> monitor" where
  "handleCompleted_overlapping s requestId d1 d2 =
     (case (completed_lookup s requestId, completed_lookup s requestId) of
        (Found r1, Found r2) \<Rightarrow>
          (case completed_store s r1 d1 True True of
             Some s1 \<Rightarrow>
               (case completed_store s1 r2 d2 True True of
                  Some s2 \<Rightarrow> cleanupRequestData (cleanupRequestData s2 requestId) requestId
                | None \<Rightarrow> cleanupRequestData s1 requestId)
           | None \<Rightarrow> s)
      | _ \<Rightarrow> s)"

text \<open>Control messages of the popup.\<close>

definition startMonitoring :: "monitor \<Rightarrow> monitor" where
  "startMonitoring s = s\<lparr>isMonitoring := True\<rparr>"

definition stopMonitoring :: "monitor \<Rightarrow> monitor" where
  "stopMonitoring s = s\<lparr>isMonitoring := False\<rparr>"

definition disableDomain :: "monitor \<Rightarrow> string \<Rightarrow> monitor" where
  "disableDomain s domain = s\<lparr>disabledDomains := insert domain (disabledDomains s)\<rparr>"

definition enableDomain :: "monitor \<Rightarrow> string \<Rightarrow> monitor" where
  "enableDomain s domain = s\<lparr>disabledDomains := disabledDomains s - {domain}\<rparr>"

text \<open>Everything the monitor reacts to, and its run over a sequence of events.\<close>

datatype event =
    Phase1 string request_details "int option" string
  | Phase2 string response_details
  | Phase3 string completed_details bool bool
  | StartMonitoring
  | StopMonitoring
  | DisableDomain string
  | EnableDomain string

fun step ::
  "url_parser \<Rightarrow> (header option list \<Rightarrow> string) \<Rightarrow> monitor \<Rightarrow> event \<Rightarrow> monitor" where
  "step P J s (Phase1 k d win now) = handleRequest P J s k d win now"
| "step P J s (Phase2 k d) = handleResponse J s k d"
| "step P J s (Phase3 k d add_ok ls_ok) = handleCompleted s k d add_ok ls_ok"
| "step P J s StartMonitoring = startMonitoring s"
| "step P J s StopMonitoring = stopMonitoring s"
| "step P J s (DisableDomain dm) = disableDomain s dm"
| "step P J s (EnableDomain dm) = enableDomain s dm"

definition run ::
  "url_parser \<Rightarrow> (header option list \<Rightarrow> string) \<Rightarrow> monitor \<Rightarrow> event list \<Rightarrow> monitor" where
  "run P J s evs = foldl (step P J) s evs"

text \<open>The request identifier an event carries, if any.\<close>

fun event_key :: "event \<Rightarrow> string option" where
  "event_key (Phase1 k d win now) = Some k"
| "event_key (Phase2 k d) = Some k"
| "event_key (Phase3 k d add_ok ls_ok) = Some k"
| "event_key e = None"

text \<open>
  \<open>excluded_at_phase1 P J k s evs\<close>: along the run of \<open>evs\<close> from \<open>s\<close>, every
  request-initiated event for \<open>k\<close> carries a URL whose domain is in the set of
  disabled domains at the moment the event arrives.
\<close>

fun excluded_at_phase1 ::
  "url_parser \<Rightarrow> (header option list \<Rightarrow> string) \<Rightarrow> string \<Rightarrow> monitor \<Rightarrow> event list \<Rightarrow> bool" where
  "excluded_at_phase1 P J k s [] = True"
| "excluded_at_phase1 P J k s (e # es) =
     ((case e of
         Phase1 k' d win now \<Rightarrow>
           (if k' = k then extractDomain P (url_arg d) \<in> disabledDomains s else True)
       | _ \<Rightarrow> True)
      \<and> excluded_at_phase1 P J k (step P J s e) es)"

section \<open>Summary\<close>

text \<open>
  \<open>generateSummary\<close> fills four counting objects, one property per group. A counting
  object starts as the literal \<open>{}\<close>: it has no property of its own, and it inherits the
  members of \<open>Object.prototype\<close>. The model keeps the object's own properties as a map
  and the inherited members by name.
\<close>

type_synonym counter = "string \<rightharpoonup> jsval"

definition object_prototype_names :: "string list" where
  "object_prototype_names =
     [''constructor'', ''toString'', ''toLocaleString'', ''valueOf'', ''hasOwnProperty'',
      ''isPrototypeOf'', ''propertyIsEnumerable'', ''__defineGetter__'', ''__defineSetter__'',
      ''__lookupGetter__'', ''__lookupSetter__'', ''__proto__'']"

text \<open>
  What an inherited member turns into when a number is added to it: \<open>__proto__\<close> reads
  as the prototype object, every other member is a built-in function and prints as its
  source text.
\<close>

definition inherited_text :: "string \<Rightarrow> string option" where
  "inherited_text k =
     (if k = ''__proto__'' then Some ''[object Object]''
      else if k = ''constructor'' then Some ''function Object() { [native code] }''
      else if k \<in> set object_prototype_names
      then Some (''function '' @ k @ ''() { [native code] }'')
      else None)"

text \<open>\<open>x + 1\<close>: addition on a number, concatenation on a string.\<close>

fun js_plus_one :: "jsval \<Rightarrow> jsval" where
  "js_plus_one (JNum n) = JNum (n + 1)"
| "js_plus_one (JStr s) = JStr (s @ ''1'')"
| "js_plus_one (JBool b) = JNum ((if b then 1 else 0) + 1)"
| "js_plus_one JNull = JNum 1"
| "js_plus_one JUndefined = JNaN"
| "js_plus_one JNaN = JNaN"

text \<open>
  \<open>obj[k] = (obj[k] || 0) + 1\<close>. An own property is read and written back. Without an
  own property the read finds the inherited member, if there is one: the sum is then a
  string, which becomes an own property, except under \<open>__proto__\<close>, whose setter drops
  a value that is not an object. A name with neither reads \<open>undefined\<close> and gets 1.
\<close>

definition increment :: "counter \<Rightarrow> string \<Rightarrow> counter" where
  "increment obj k =
     (case obj k of
        Some v \<Rightarrow> obj(k \<mapsto> js_plus_one (js_or v (JNum 0)))
      | None \<Rightarrow>
          (case inherited_text k of
             None \<Rightarrow> obj(k \<mapsto> js_plus_one (js_or JUndefined (JNum 0)))
           | Some t \<Rightarrow> (if k = ''__proto__'' then obj else obj(k \<mapsto> js_plus_one (JStr t)))))"

record summary =
  total_requests :: nat
  unique_domains :: nat
  methods :: counter
  status_codes :: counter
  content_types :: counter
  protocols :: counter

datatype js_error = TypeError

text \<open>The host name that the summary derives from a record's \<open>url\<close>.\<close>

definition summary_hostname :: "url_parser \<Rightarrow> jsobj \<Rightarrow> string" where
  "summary_hostname P r =
     (case P (js_toString (get r ''url'')) of
        Some urlObj \<Rightarrow> hostname urlObj
      | None \<Rightarrow> ''unknown'')"

text \<open>
  The body of the \<open>forEach\<close> loop. A truthy \<open>content_type\<close> that is not a string has
  no method \<open>split\<close>: the call throws a \<open>TypeError\<close>, which \<open>generateSummary\<close> does
  not catch.
\<close>

definition count_request :: "summary \<Rightarrow> jsobj \<Rightarrow> js_error + summary" where
  "count_request sm request =
     (let s1 = sm\<lparr>methods := increment (methods sm) (js_toString (get request ''method''))\<rparr>;
          s2 = s1\<lparr>status_codes :=
                   increment (status_codes s1) (js_toString (get request ''response_code''))\<rparr>
      in if truthy (get request ''content_type'')
         then (case get request ''content_type'' of
                 JStr ct \<Rightarrow>
                   (let ty = str_split CHR '';'' ct ! 0;
                        s3 = s2\<lparr>content_types := increment (content_types s2) ty\<rparr>
                    in Inr (s3\<lparr>protocols :=
                                 increment (protocols s3) (js_toString (get request ''protocol''))\<rparr>))
               | _ \<Rightarrow> Inl TypeError)
         else Inr (s2\<lparr>protocols :=
                        increment (protocols s2) (js_toString (get request ''protocol''))\<rparr>))"

fun forEach_count :: "summary \<Rightarrow> jsobj list \<Rightarrow> js_error + summary" where
  "forEach_count sm [] = Inr sm"
| "forEach_count sm (request # rest) =
     (case count_request sm request of
        Inl e \<Rightarrow> Inl e
      | Inr sm' \<Rightarrow> forEach_count sm' rest)"

definition generateSummary :: "url_parser \<Rightarrow> jsobj list \<Rightarrow> js_error + summary" where
  "generateSummary P data =
     forEach_count
       \<lparr>total_requests = length data,
        unique_domains = card (set (map (summary_hostname P) data)),
        methods = Map.empty,
        status_codes = Map.empty,
        content_types = Map.empty,
        protocols = Map.empty\<rparr>
       data"

text \<open>
  What the specification asks of a summary, in its own words: the number of requests in
  each group, the major type of a content type, and the total content length (the sum
  that the analytics page computes as \<open>total_size += request.content_length || 0\<close>).
\<close>

definition group_count :: "(jsobj \<Rightarrow> string option) \<Rightarrow> jsobj list \<Rightarrow> string \<Rightarrow> nat option" where
  "group_count f data k =
     (let n = length (filter (\<lambda>r. f r = Some k) data) in if n = 0 then None else Some n)"

text \<open>
  Counting by hand: a map of counts after a pass over the records, and the counting
  object that holds these counts as numbers.
\<close>

definition tally ::
  "(string \<rightharpoonup> nat) \<Rightarrow> (jsobj \<Rightarrow> string option) \<Rightarrow> jsobj list \<Rightarrow> (string \<rightharpoonup> nat)" where
  "tally m f data =
     foldl (\<lambda>acc r. case f r of
                       None \<Rightarrow> acc
                     | Some k \<Rightarrow> acc(k \<mapsto> (case acc k of None \<Rightarrow> 0 | Some c \<Rightarrow> c) + 1))
       m data"

definition as_counter :: "(string \<rightharpoonup> nat) \<Rightarrow> counter" where
  "as_counter m = (\<lambda>k. map_option (\<lambda>c. JNum (int c)) (m k))"

text \<open>The counting object after a pass of \<open>increment\<close> over the records.\<close>

definition counter_pass ::
  "counter \<Rightarrow> (jsobj \<Rightarrow> string option) \<Rightarrow> jsobj list \<Rightarrow> counter" where
  "counter_pass obj f data =
     foldl (\<lambda>acc r. case f r of None \<Rightarrow> acc | Some k \<Rightarrow> increment acc k) obj data"

definition major_type :: "jsobj \<Rightarrow> string option" where
  "major_type r =
     (case get r ''content_type'' of
        JStr ct \<Rightarrow> (if ct = [] then None else Some (takeWhile (\<lambda>c. c \<noteq> CHR '';'') ct))
      | _ \<Rightarrow> None)"

definition content_type_ok :: "jsobj \<Rightarrow> bool" where
  "content_type_ok r =
     (case get r ''content_type'' of JStr ct \<Rightarrow> True | v \<Rightarrow> \<not> truthy v)"

text \<open>
  The records a summary is asked for: the content type is a string or falsy, no group
  key is the name of a member of \<open>Object.prototype\<close>, and a number among the grouped
  fields is an integer that a JavaScript number holds exactly and prints in decimal.
\<close>

definition js_exact :: "jsval \<Rightarrow> bool" where
  "js_exact v = (case v of JNum n \<Rightarrow> \<bar>n\<bar> < 9007199254740992 | _ \<Rightarrow> True)"

definition group_keys :: "jsobj \<Rightarrow> string list" where
  "group_keys r =
     [js_toString (get r ''method''), js_toString (get r ''response_code''),
      js_toString (get r ''protocol'')]
     @ (case major_type r of None \<Rightarrow> [] | Some t \<Rightarrow> [t])"

definition summary_ok :: "jsobj \<Rightarrow> bool" where
  "summary_ok r =
     (content_type_ok r
      \<and> list_all (\<lambda>k. k \<notin> set object_prototype_names) (group_keys r)
      \<and> list_all (\<lambda>f. js_exact (get r f)) [''method'', ''response_code'', ''protocol''])"

definition total_content_length :: "jsobj list \<Rightarrow> int" where
  "total_content_length data =
     sum_list (map (\<lambda>r. case get r ''content_length'' of JNum n \<Rightarrow> n | _ \<Rightarrow> 0) data)"

section \<open>CSV rendering\<close>

definition csv_cell :: "jsobj \<Rightarrow> string \<Rightarrow> string" where
  "csv_cell row h = [CHR 0x22] @ js_toString (js_or (get row h) (JStr [])) @ [CHR 0x22]"

definition convertToCSV :: "jsobj list \<Rightarrow> string" where
  "convertToCSV data =
     (if length data = 0 then []
      else (let headers = keys (data ! 0) in
            join [CHR 0x0A]
              (join '','' headers
               # map (\<lambda>row. join '','' (map (\<lambda>h. csv_cell row h) headers)) data)))"

section \<open>SQL script\<close>

text \<open>
  The three forms of interpolation in the \<open>INSERT\<close> template:
  \<open>'${record.f}'\<close>, \<open>'${record.f || ''}'\<close> and \<open>${record.f || 'NULL'}\<close>.
\<close>

definition sql_raw :: "jsobj \<Rightarrow> string \<Rightarrow> string" where
  "sql_raw record f = [CHR 0x27] @ js_toString (get record f) @ [CHR 0x27]"

definition sql_text :: "jsobj \<Rightarrow> string \<Rightarrow> string" where
  "sql_text record f = [CHR 0x27] @ js_toString (js_or (get record f) (JStr [])) @ [CHR 0x27]"

definition sql_num :: "jsobj \<Rightarrow> string \<Rightarrow> string" where
  "sql_num record f = js_toString (js_or (get record f) (JStr ''NULL''))"

text \<open>The columns that the \<open>INSERT\<close> template fills with \<open>${record.f || 'NULL'}\<close>.\<close>

definition numeric_columns :: "string list" where
  "numeric_columns = [''port'', ''response_code'', ''content_length'', ''tab_id'', ''window_id'']"

text \<open>
  What a numeric column shows, said by cases on the field: a number other than zero as
  its decimal digits, anything else as \<open>NULL\<close>. A record is \<open>numeric_ok\<close> when each
  numeric field is absent, \<open>null\<close> or an integer below \<open>2^53\<close> in magnitude.
\<close>

definition number_or_null :: "jsval \<Rightarrow> string" where
  "number_or_null v =
     (case v of JNum n \<Rightarrow> (if n = 0 then ''NULL'' else intToString n) | _ \<Rightarrow> ''NULL'')"

definition numeric_ok :: "jsobj \<Rightarrow> bool" where
  "numeric_ok record =
     list_all
       (\<lambda>f. case get record f of
               JUndefined \<Rightarrow> True
             | JNull \<Rightarrow> True
             | JNum n \<Rightarrow> \<bar>n\<bar> < 9007199254740992
             | _ \<Rightarrow> False)
       numeric_columns"

text \<open>A template literal is its lines joined by line feeds; it starts with one.\<close>

definition template :: "string list \<Rightarrow> string" where
  "template ls = join [CHR 0x0A] ([] # ls)"

definition sqlite_header :: string where
  "sqlite_header = ''SQLite format 3'' @ [CHR 0x00]"

definition createTableSQL :: string where
  "createTableSQL = template
     [''      CREATE TABLE IF NOT EXISTS network_requests ('',
      ''        id INTEGER PRIMARY KEY AUTOINCREMENT,'',
      ''        timestamp TEXT,'',
      ''        method TEXT,'',
      ''        protocol TEXT,'',
      ''        port INTEGER,'',
      ''        url TEXT,'',
      ''        filename TEXT,'',
      ''        domain TEXT,'',
      ''        user_agent TEXT,'',
      ''        referer TEXT,'',
      ''        origin TEXT,'',
      ''        cookie TEXT,'',
      ''        vary TEXT,'',
      ''        x_forwarded_for TEXT,'',
      ''        content_type TEXT,'',
      ''        response_code INTEGER,'',
      ''        response_message TEXT,'',
      ''        date TEXT,'',
      ''        server TEXT,'',
      ''        content_length INTEGER,'',
      ''        location TEXT,'',
      ''        response_preview TEXT,'',
      ''        response_checksum TEXT,'',
      ''        tab_id INTEGER,'',
      ''        window_id INTEGER,'',
      ''        request_headers TEXT,'',
      ''        response_headers TEXT'',
      ''      );'',
      ''    '']"

definition insertSQL :: "jsobj \<Rightarrow> string" where
  "insertSQL record = template
     [''        INSERT INTO network_requests ('',
      ''          timestamp, method, protocol, port, url, filename, domain,'',
      ''          user_agent, referer, origin, cookie, vary, x_forwarded_for,'',
      ''          content_type, response_code, response_message, date, server,'',
      ''          content_length, location, response_preview, response_checksum,'',
      ''          tab_id, window_id, request_headers, response_headers'',
      ''        ) VALUES ('',
      ''          '' @ sql_raw record ''timestamp'' @ '', '' @ sql_raw record ''method'' @ '', '' @ sql_raw record ''protocol'' @ '', '' @ sql_num record ''port'' @ '','',
      ''          '' @ sql_raw record ''url'' @ '', '' @ sql_raw record ''filename'' @ '', '' @ sql_raw record ''domain'' @ '','',
      ''          '' @ sql_text record ''user_agent'' @ '', '' @ sql_text record ''referer'' @ '', '' @ sql_text record ''origin'' @ '','',
      ''          '' @ sql_text record ''cookie'' @ '', '' @ sql_text record ''vary'' @ '', '' @ sql_text record ''x_forwarded_for'' @ '','',
      ''          '' @ sql_text record ''content_type'' @ '', '' @ sql_num record ''response_code'' @ '', '' @ sql_text record ''response_message'' @ '','',
      ''          '' @ sql_text record ''date'' @ '', '' @ sql_text record ''server'' @ '', '' @ sql_num record ''content_length'' @ '','',
      ''          '' @ sql_text record ''location'' @ '', '' @ sql_text record ''response_preview'' @ '', '' @ sql_text record ''response_checksum'' @ '','',
      ''          '' @ sql_num record ''tab_id'' @ '', '' @ sql_num record ''window_id'' @ '','',
      ''          '' @ sql_text record ''request_headers'' @ '', '' @ sql_text record ''response_headers'',
      ''        );'',
      ''      '']"

definition createSQLiteDatabase :: "jsobj list \<Rightarrow> string" where
  "createSQLiteDatabase data =
     foldl (\<lambda>sqliteContent record. sqliteContent @ insertSQL record)
       (sqlite_header @ createTableSQL) data"

text \<open>
  Reading a \<open>CREATE TABLE\<close> statement back: its lines but the opening one and the
  closing two declare one column each, the name first.
\<close>

definition column_name :: "string \<Rightarrow> string" where
  "column_name l = takeWhile (\<lambda>c. c \<noteq> CHR '' '') (dropWhile (\<lambda>c. c = CHR '' '') l)"

definition declared_columns :: "string \<Rightarrow> string list" where
  "declared_columns sql =
     map column_name (butlast (butlast (drop 2 (str_split (CHR 0x0A) sql))))"

section \<open>Platform functions for the worked examples\<close>

text \<open>
  What \<open>new URL\<close> returns for the URLs of the examples (any other string is taken as
  unparsable), and \<open>JSON.stringify\<close> on header arrays whose strings need no escaping.
  The parser leaves \<open>port\<close> empty when the URL spells the default port of its scheme,
  as 443 is for \<open>wss\<close>.
\<close>

definition sample_parser :: url_parser where
  "sample_parser u =
     (if u = ''https://example.com/a.js''
      then Some \<lparr>protocol = ''https:'', hostname = ''example.com'', port = [],
                  pathname = ''/a.js''\<rparr>
      else if u = ''https://example.com/b''
      then Some \<lparr>protocol = ''https:'', hostname = ''example.com'', port = [],
                  pathname = ''/b''\<rparr>
      else if u = ''http://test.org:8080/x/y/''
      then Some \<lparr>protocol = ''http:'', hostname = ''test.org'', port = ''8080'',
                  pathname = ''/x/y/''\<rparr>
      else if u = ''wss://example.com:443/chat''
      then Some \<lparr>protocol = ''wss:'', hostname = ''example.com'', port = [],
                  pathname = ''/chat''\<rparr>
      else None)"

definition sample_stringify :: "header option list \<Rightarrow> string" where
  "sample_stringify hs =
     ''['' @ join '',''
       (map (\<lambda>h. case h of
                    None \<Rightarrow> ''null''
                  | Some e \<Rightarrow>
                      ''{'' @ join '',''
                        ((case hname e of
                            None \<Rightarrow> []
                          | Some n \<Rightarrow> [[CHR 0x22] @ ''name'' @ [CHR 0x22] @ '':'' @ [CHR 0x22] @ n @ [CHR 0x22]])
                         @ (case hvalue e of
                              None \<Rightarrow> []
                            | Some v \<Rightarrow> [[CHR 0x22] @ ''value'' @ [CHR 0x22] @ '':'' @ [CHR 0x22] @ v @ [CHR 0x22]]))
                      @ ''}'') hs)
     @ '']''"

section \<open>A completed event that nothing interrupts\<close>

lemma handleCompleted_unfold:
  "handleCompleted s requestId d add_ok ls_ok =
     (if \<not> isMonitoring s then s
      else (case getRequestData s requestId of
              Some requestData \<Rightarrow>
                (case storeCompleteRequest add_ok ls_ok s
                        (spread requestData (additionalHeaders_of d)) of
                   Some s' \<Rightarrow> cleanupRequestData s' requestId
                 | None \<Rightarrow> s)
            | None \<Rightarrow> cleanupRequestData s requestId))"
  by (simp add: handleCompleted_def completed_lookup_def completed_store_def
      split: option.splits)

section \<open>The backup ring\<close>

lemma length_saveToLocalStorageBackup:
  "length (saveToLocalStorageBackup ok stored data) \<le> max (length stored) 1000"
  by (simp add: saveToLocalStorageBackup_def Let_def)

lemma backup_step_bounded:
  "length (backup s) \<le> 1000 \<Longrightarrow> length (backup (step P J s e)) \<le> 1000"
  apply (cases e)
  apply (auto simp: handleRequest_def handleResponse_def handleCompleted_unfold storeRequestData_def
      updateRequestData_def cleanupRequestData_def storeCompleteRequest_def Let_def getRequestData_def
      startMonitoring_def stopMonitoring_def disableDomain_def enableDomain_def
      saveToLocalStorageBackup_def
      split: option.splits)
  done

text \<open>
  Claim C6. The backup never holds more than 1000 records. A push onto a backup of exactly
  1000 records drops the oldest one and appends the new one, so the length stays 1000;
  below the capacity a push only appends; a push that fails leaves the backup as it was.
  Along every run of the monitor the bound is kept.
\<close>

theorem backup_ring_capacity:
  "length (saveToLocalStorageBackup True stored data) \<le> 1000
   \<and> (length stored = 1000 \<longrightarrow>
        saveToLocalStorageBackup True stored data = tl stored @ [data]
        \<and> length (saveToLocalStorageBackup True stored data) = 1000)
   \<and> (length stored < 1000 \<longrightarrow> saveToLocalStorageBackup True stored data = stored @ [data])
   \<and> saveToLocalStorageBackup False stored data = stored
   \<and> (length (backup s) \<le> 1000 \<longrightarrow> length (backup (run P J s evs)) \<le> 1000)"
proof -
  have a: "length (saveToLocalStorageBackup True stored data) \<le> 1000"
    by (simp add: saveToLocalStorageBackup_def Let_def)
  have b: "saveToLocalStorageBackup True stored data = tl stored @ [data]"
    if "length stored = 1000"
    using that by (cases stored) (simp_all add: saveToLocalStorageBackup_def Let_def)
  have c: "saveToLocalStorageBackup True stored data = stored @ [data]"
    if "length stored < 1000"
    using that by (simp add: saveToLocalStorageBackup_def Let_def)
  have d: "length (backup (run P J s evs)) \<le> 1000" if "length (backup s) \<le> 1000"
    using that unfolding run_def
    by (induction evs arbitrary: s) (simp_all add: backup_step_bounded)
  show ?thesis using a b c d by (simp add: saveToLocalStorageBackup_def)
qed

theorem backup_ring_capacity_witness:
  "length (replicate 1000 ([] :: jsobj)) = 1000
   \<and> saveToLocalStorageBackup True (replicate 1000 []) [(''url'', JStr ''u'')]
       = tl (replicate 1000 []) @ [[(''url'', JStr ''u'')]]
   \<and> length (saveToLocalStorageBackup True (replicate 1000 []) [(''url'', JStr ''u'')]) = 1000
   \<and> length (backup initial) \<le> 1000
   \<and> length (backup (run sample_parser sample_stringify initial
        [Phase1 ''r1'' \<lparr>d_method = Some ''GET'', d_url = Some ''https://example.com/a.js'',
            d_tabId = Some 7, d_frameId = Some 0, d_requestHeaders = None\<rparr> (Some 3) ''t0'',
         Phase3 ''r1'' \<lparr>c_requestHeaders = None\<rparr> True True])) \<le> 1000"
  using backup_ring_capacity [of "replicate 1000 []" "[(''url'', JStr ''u'')]" initial sample_parser
      sample_stringify "[Phase1 ''r1'' \<lparr>d_method = Some ''GET'', d_url = Some ''https://example.com/a.js'',
            d_tabId = Some 7, d_frameId = Some 0, d_requestHeaders = None\<rparr> (Some 3) ''t0'',
         Phase3 ''r1'' \<lparr>c_requestHeaders = None\<rparr> True True]"]
  by (simp add: initial_def)

section \<open>Strings and numerals\<close>

lemma str_split_nonempty: "str_split c s \<noteq> []"
  by (induction s) (auto split: list.splits)

lemma str_split_no_sep: "c \<notin> set s \<Longrightarrow> str_split c s = [s]"
  by (induction s) auto

lemma join_str_split: "join [c] (str_split c s) = s"
proof (induction s)
  case Nil
  show ?case by simp
next
  case (Cons x xs)
  show ?case
  proof (cases "x = c")
    case True
    obtain y ys where "str_split c xs = y # ys"
      using str_split_nonempty [of c xs] by (cases "str_split c xs") auto
    with True Cons show ?thesis by simp
  next
    case False
    obtain y ys where e: "str_split c xs = y # ys"
      using str_split_nonempty [of c xs] by (cases "str_split c xs") auto
    with False Cons show ?thesis by (cases ys) auto
  qed
qed

lemma hd_str_split: "hd (str_split c s) = takeWhile (\<lambda>x. x \<noteq> c) s"
  by (induction s) (auto split: list.splits simp: str_split_nonempty)

lemma last_str_split_no_sep: "c \<notin> set (last (str_split c s))"
  by (induction s) (auto split: list.splits simp: str_split_nonempty)

lemma last_str_split_suffix:
  "\<exists>pre. s = pre @ last (str_split c s) \<and> (pre = [] \<or> last pre = c)"
proof (induction s)
  case Nil
  show ?case by simp
next
  case (Cons x xs)
  then obtain pre where p: "xs = pre @ last (str_split c xs)" "pre = [] \<or> last pre = c"
    by blast
  obtain y ys where e: "str_split c xs = y # ys"
    using str_split_nonempty [of c xs] by (cases "str_split c xs") auto
  show ?case
  proof (cases "x = c")
    case True
    have "x # xs = (c # pre) @ last (str_split c (x # xs))"
      using p(1) True e by simp
    moreover have "last (c # pre) = c" using p(2) by auto
    ultimately show ?thesis by blast
  next
    case False
    show ?thesis
    proof (cases ys)
      case Nil
      have "join [c] (str_split c xs) = xs" by (rule join_str_split)
      with e Nil have "y = xs" by simp
      with e Nil False have "last (str_split c (x # xs)) = x # xs" by simp
      then show ?thesis by (intro exI [of _ "[]"]) simp
    next
      case (Cons z zs)
      have l: "last (str_split c (x # xs)) = last (str_split c xs)"
        using e Cons False by simp
      have "pre \<noteq> []"
      proof
        assume "pre = []"
        with p(1) have "xs = last (str_split c xs)" by simp
        then have "c \<notin> set xs" using last_str_split_no_sep [of c xs] by simp
        then have "str_split c xs = [xs]" by (rule str_split_no_sep)
        with e Cons show False by simp
      qed
      with p(2) have "last (x # pre) = c" by simp
      moreover have "x # xs = (x # pre) @ last (str_split c (x # xs))"
        using p(1) l by simp
      ultimately show ?thesis by blast
    qed
  qed
qed

lemma lt10: "(d::nat) < 10 \<Longrightarrow> d \<in> set [0,1,2,3,4,5,6,7,8,9]"
  by (simp only: set_simps insert_iff empty_iff) presburger

lemma digit_char: "d < 10 \<Longrightarrow> digitValue (''0123456789'' ! d) = Some d"
  by (drule lt10, simp only: set_simps insert_iff empty_iff simp_thms, elim disjE)
    (simp_all add: digitValue_def)

lemma digit_char_set: "d < 10 \<Longrightarrow> ''0123456789'' ! d \<in> set ''0123456789''"
  by (rule nth_mem) simp

lemma natToString_nonempty: "natToString n \<noteq> []"
  by (subst natToString.simps) simp

lemma natToString_digits: "set (natToString n) \<subseteq> set ''0123456789''"
proof (induction n rule: natToString.induct)
  case (1 n)
  show ?case
  proof (cases "n < 10")
    case True
    then show ?thesis using digit_char_set [of n] by (subst natToString.simps) simp
  next
    case False
    have "n mod 10 < 10" by simp
    then have "''0123456789'' ! (n mod 10) \<in> set ''0123456789''" by (rule digit_char_set)
    with False 1 show ?thesis by (subst natToString.simps) simp
  qed
qed

lemma digitsValue_snoc:
  "digitsValue r (ds @ [c]) = digitsValue r ds * r + (case digitValue c of None \<Rightarrow> 0 | Some d \<Rightarrow> d)"
  by (simp add: digitsValue_def)

lemma digitsValue_natToString: "digitsValue 10 (natToString n) = n"
proof (induction n rule: natToString.induct)
  case (1 n)
  show ?case
  proof (cases "n < 10")
    case True
    then show ?thesis
      by (subst natToString.simps) (simp add: digitsValue_def digit_char)
  next
    case False
    have "n mod 10 < 10" by simp
    then have "digitValue (''0123456789'' ! (n mod 10)) = Some (n mod 10)" by (rule digit_char)
    with False 1 show ?thesis
      by (subst natToString.simps) (simp add: digitsValue_snoc)
  qed
qed

lemma decimal_cases:
  "c \<in> set ''0123456789'' \<Longrightarrow>
   c = CHR ''0'' \<or> c = CHR ''1'' \<or> c = CHR ''2'' \<or> c = CHR ''3'' \<or> c = CHR ''4'' \<or>
   c = CHR ''5'' \<or> c = CHR ''6'' \<or> c = CHR ''7'' \<or> c = CHR ''8'' \<or> c = CHR ''9''"
  by (simp only: set_simps insert_iff empty_iff simp_thms)

lemma isDigit_decimal: "c \<in> set ''0123456789'' \<Longrightarrow> isDigit 10 c"
  by (drule decimal_cases, elim disjE) (simp_all add: isDigit_def digitValue_def)

lemma not_white_decimal: "c \<in> set ''0123456789'' \<Longrightarrow> \<not> isWhiteSpace c"
  by (drule decimal_cases, elim disjE) (simp_all add: isWhiteSpace_def)

lemma decimal_not_sign:
  "c \<in> set ''0123456789'' \<Longrightarrow> c \<noteq> CHR ''-'' \<and> c \<noteq> CHR ''+'' \<and> c \<noteq> CHR ''x'' \<and> c \<noteq> CHR ''X''"
  by (drule decimal_cases, elim disjE) simp_all

lemma parseInt_decimal:
  assumes "s \<noteq> []" and "set s \<subseteq> set ''0123456789''"
  shows "parseInt s = JNum (int (digitsValue 10 s))"
proof -
  obtain a r where s: "s = a # r" using assms(1) by (cases s) auto
  have a: "a \<in> set ''0123456789''" using assms(2) s by simp
  have w: "dropWhile isWhiteSpace s = s" using s not_white_decimal [OF a] by simp
  have sg: "take 1 s \<noteq> ''-''" "take 1 s \<noteq> ''+''"
    using s decimal_not_sign [OF a] by simp_all
  have hx: "take 2 s \<noteq> ''0x''" "take 2 s \<noteq> ''0X''"
  proof -
    show "take 2 s \<noteq> ''0x''"
    proof (cases r)
      case Nil
      with s show ?thesis by simp
    next
      case (Cons b r')
      with s assms(2) have "b \<in> set ''0123456789''" by simp
      then have "b \<noteq> CHR ''x''" using decimal_not_sign by blast
      with s Cons show ?thesis by simp
    qed
    show "take 2 s \<noteq> ''0X''"
    proof (cases r)
      case Nil
      with s show ?thesis by simp
    next
      case (Cons b r')
      with s assms(2) have "b \<in> set ''0123456789''" by simp
      then have "b \<noteq> CHR ''X''" using decimal_not_sign by blast
      with s Cons show ?thesis by simp
    qed
  qed
  have tw: "takeWhile (isDigit 10) s = s"
    using assms(2) isDigit_decimal by (auto simp: takeWhile_eq_all_conv)
  have "parseInt s = (if s = [] then JNaN else JNum (int (digitsValue 10 s)))"
    unfolding parseInt_def Let_def w
    by (simp only: sg hx tw simp_thms if_False)
  with assms(1) show ?thesis by simp
qed

lemma parseInt_natToString: "parseInt (natToString n) = JNum (int n)"
  using parseInt_decimal [OF natToString_nonempty natToString_digits, of n]
  by (simp add: digitsValue_natToString)

section \<open>URL fields\<close>

text \<open>
  The four URL helpers return a value for every string. When the URL does not parse, the
  protocol and the domain are \<open>unknown\<close>, the port is \<open>null\<close> and the file name is
  empty. When it parses, the port is the number that the parsed URL's \<open>port\<close> property
  spells when that property is not empty, and otherwise 443 for \<open>https:\<close> and 80 for any
  other protocol; the file name is the part of the path after its last slash.
\<close>

theorem url_fields_total:
  "(P u = None \<longrightarrow>
      extractProtocol P u = ''unknown'' \<and> extractDomain P u = ''unknown''
      \<and> extractPort P u = JNull \<and> extractFilename P u = [])
   \<and> (\<forall>urlObj. P u = Some urlObj \<longrightarrow>
         extractProtocol P u = remove1 CHR '':'' (protocol urlObj)
         \<and> extractDomain P u = hostname urlObj
         \<and> (\<forall>n. port urlObj = natToString n \<longrightarrow> extractPort P u = JNum (int n))
         \<and> (port urlObj = [] \<longrightarrow>
              extractPort P u = (if protocol urlObj = ''https:'' then JNum 443 else JNum 80))
         \<and> CHR ''/'' \<notin> set (extractFilename P u)
         \<and> (\<exists>pre. pathname urlObj = pre @ extractFilename P u
                   \<and> (pre = [] \<or> last pre = CHR ''/'')))"
proof -
  have unparsable: "extractProtocol P u = ''unknown'' \<and> extractDomain P u = ''unknown''
      \<and> extractPort P u = JNull \<and> extractFilename P u = []" if "P u = None"
    using that by (simp add: extractProtocol_def extractDomain_def extractPort_def extractFilename_def)
  have parsable: "extractProtocol P u = remove1 CHR '':'' (protocol urlObj)
         \<and> extractDomain P u = hostname urlObj
         \<and> (\<forall>n. port urlObj = natToString n \<longrightarrow> extractPort P u = JNum (int n))
         \<and> (port urlObj = [] \<longrightarrow>
              extractPort P u = (if protocol urlObj = ''https:'' then JNum 443 else JNum 80))
         \<and> CHR ''/'' \<notin> set (extractFilename P u)
         \<and> (\<exists>pre. pathname urlObj = pre @ extractFilename P u
                   \<and> (pre = [] \<or> last pre = CHR ''/''))" if p: "P u = Some urlObj" for urlObj
  proof -
    have f: "extractFilename P u = last (str_split CHR ''/'' (pathname urlObj))"
      using p by (simp add: extractFilename_def Let_def)
    have "extractPort P u = JNum (int n)" if "port urlObj = natToString n" for n
      using p that by (simp add: extractPort_def natToString_nonempty parseInt_natToString)
    moreover have "extractPort P u = (if protocol urlObj = ''https:'' then JNum 443 else JNum 80)"
      if "port urlObj = []"
      using p that by (simp add: extractPort_def)
    moreover have "CHR ''/'' \<notin> set (extractFilename P u)"
      unfolding f by (rule last_str_split_no_sep)
    moreover have "\<exists>pre. pathname urlObj = pre @ extractFilename P u
                   \<and> (pre = [] \<or> last pre = CHR ''/'')"
      unfolding f by (rule last_str_split_suffix)
    moreover have "extractProtocol P u = remove1 CHR '':'' (protocol urlObj)"
      using p by (simp add: extractProtocol_def)
    moreover have "extractDomain P u = hostname urlObj"
      using p by (simp add: extractDomain_def)
    ultimately show ?thesis by blast
  qed
  show ?thesis using unparsable parsable by blast
qed

theorem url_fields_total_witness:
  "sample_parser ''not a url'' = None
   \<and> extractProtocol sample_parser ''not a url'' = ''unknown''
   \<and> extractDomain sample_parser ''not a url'' = ''unknown''
   \<and> extractPort sample_parser ''not a url'' = JNull
   \<and> extractFilename sample_parser ''not a url'' = []
   \<and> sample_parser ''http://test.org:8080/x/y/''
       = Some \<lparr>protocol = ''http:'', hostname = ''test.org'', port = ''8080'', pathname = ''/x/y/''\<rparr>
   \<and> extractProtocol sample_parser ''http://test.org:8080/x/y/'' = ''http''
   \<and> extractDomain sample_parser ''http://test.org:8080/x/y/'' = ''test.org''
   \<and> extractPort sample_parser ''http://test.org:8080/x/y/'' = JNum 8080
   \<and> CHR ''/'' \<notin> set (extractFilename sample_parser ''http://test.org:8080/x/y/'')
   \<and> extractPort sample_parser ''https://example.com/a.js'' = JNum 443"
proof -
  have n: "''8080'' = natToString 8080" by (simp add: natToString.simps)
  have p1: "sample_parser ''not a url'' = None" by (simp add: sample_parser_def)
  have p2: "sample_parser ''http://test.org:8080/x/y/''
      = Some \<lparr>protocol = ''http:'', hostname = ''test.org'', port = ''8080'', pathname = ''/x/y/''\<rparr>"
    by (simp add: sample_parser_def)
  have p3: "sample_parser ''https://example.com/a.js''
      = Some \<lparr>protocol = ''https:'', hostname = ''example.com'', port = [], pathname = ''/a.js''\<rparr>"
    by (simp add: sample_parser_def)
  note t1 = url_fields_total [of sample_parser "''not a url''", THEN conjunct1, rule_format, OF p1]
  note t2 = url_fields_total [of sample_parser "''http://test.org:8080/x/y/''", THEN conjunct2,
      rule_format, OF p2]
  note t3 = url_fields_total [of sample_parser "''https://example.com/a.js''", THEN conjunct2,
      rule_format, OF p3]
  have a: "extractProtocol sample_parser ''http://test.org:8080/x/y/'' = ''http''"
    using t2 [THEN conjunct1] by simp
  have b: "extractDomain sample_parser ''http://test.org:8080/x/y/'' = ''test.org''"
    using t2 [THEN conjunct2, THEN conjunct1] by simp
  have c: "extractPort sample_parser ''http://test.org:8080/x/y/'' = JNum 8080"
    using t2 [THEN conjunct2, THEN conjunct2, THEN conjunct1, rule_format, of 8080] n by simp
  have d: "CHR ''/'' \<notin> set (extractFilename sample_parser ''http://test.org:8080/x/y/'')"
    using t2 [THEN conjunct2, THEN conjunct2, THEN conjunct2, THEN conjunct2, THEN conjunct1] .
  have e: "extractPort sample_parser ''https://example.com/a.js'' = JNum 443"
    using t3 [THEN conjunct2, THEN conjunct2, THEN conjunct2, THEN conjunct1] by simp
  show ?thesis using t1 p1 p2 a b c d e by simp
qed


section \<open>Header lookup is case-insensitive\<close>

text \<open>
  Claim C8. \<open>getHeaderValue\<close> compares names after lowering their case, so two names that
  differ only in case give the same result. When the array is missing, or holds no
  element whose non-empty name equals the requested one up to case, the result is the
  empty string. Otherwise the result is the value of the first such element.
\<close>

theorem header_lookup:
  "getHeaderValue None nm = JStr []
   \<and> (toLowerCase nm = toLowerCase nm' \<longrightarrow> getHeaderValue hs nm = getHeaderValue hs nm')
   \<and> ((\<forall>e n. Some e \<in> set arr \<and> hname e = Some n \<and> n \<noteq> []
             \<longrightarrow> toLowerCase n \<noteq> toLowerCase nm)
        \<longrightarrow> getHeaderValue (Some arr) nm = JStr [])
   \<and> ((\<forall>e' n'. Some e' \<in> set pre \<and> hname e' = Some n' \<and> n' \<noteq> []
               \<longrightarrow> toLowerCase n' \<noteq> toLowerCase nm)
        \<and> hname e = Some n \<and> n \<noteq> [] \<and> toLowerCase n = toLowerCase nm
        \<longrightarrow> getHeaderValue (Some (pre @ Some e # post)) nm = of_str (hvalue e))"
proof -
  have a: "getHeaderValue None nm = JStr []" by (simp add: getHeaderValue_def)
  have b: "getHeaderValue hs nm = getHeaderValue hs nm'" if "toLowerCase nm = toLowerCase nm'"
  proof -
    have "header_matches nm = header_matches nm'"
      using that by (auto simp: header_matches_def fun_eq_iff split: option.splits)
    then show ?thesis by (simp only: getHeaderValue_def)
  qed
  have nomatch: "find (header_matches nm) xs = None"
    if "\<forall>e n. Some e \<in> set xs \<and> hname e = Some n \<and> n \<noteq> [] \<longrightarrow> toLowerCase n \<noteq> toLowerCase nm"
    for xs
    using that by (auto simp: find_None_iff header_matches_def split: option.splits)
  have c: "getHeaderValue (Some arr) nm = JStr []"
    if "\<forall>e n. Some e \<in> set arr \<and> hname e = Some n \<and> n \<noteq> [] \<longrightarrow> toLowerCase n \<noteq> toLowerCase nm"
    using nomatch [OF that] by (simp add: getHeaderValue_def)
  have find_append: "find Q (xs @ ys) = (case find Q xs of None \<Rightarrow> find Q ys | Some x \<Rightarrow> Some x)"
    for Q :: "header option \<Rightarrow> bool" and xs ys
    by (induction xs) auto
  have d: "getHeaderValue (Some (pre @ Some e # post)) nm = of_str (hvalue e)"
    if h: "\<forall>e' n'. Some e' \<in> set pre \<and> hname e' = Some n' \<and> n' \<noteq> [] \<longrightarrow> toLowerCase n' \<noteq> toLowerCase nm"
      and m: "hname e = Some n" "n \<noteq> []" "toLowerCase n = toLowerCase nm"
  proof -
    have "header_matches nm (Some e)" using m by (simp add: header_matches_def)
    then have "find (header_matches nm) (pre @ Some e # post) = Some (Some e)"
      using nomatch [OF h] by (simp add: find_append)
    then show ?thesis by (simp add: getHeaderValue_def of_str_def)
  qed
  show ?thesis using a b c d by blast
qed


theorem header_lookup_witness:
  "toLowerCase ''content-type'' = toLowerCase ''Content-Type''
   \<and> getHeaderValue
        (Some [None, Some \<lparr>hname = Some ''Server'', hvalue = Some ''nginx''\<rparr>,
               Some \<lparr>hname = Some ''Content-Type'', hvalue = Some ''text/html''\<rparr>])
        ''content-type''
       = JStr ''text/html''
   \<and> getHeaderValue
        (Some [None, Some \<lparr>hname = Some ''Server'', hvalue = Some ''nginx''\<rparr>,
               Some \<lparr>hname = Some ''Content-Type'', hvalue = Some ''text/html''\<rparr>])
        ''CONTENT-TYPE''
       = JStr ''text/html''
   \<and> getHeaderValue
        (Some [None, Some \<lparr>hname = Some ''Server'', hvalue = Some ''nginx''\<rparr>,
               Some \<lparr>hname = Some ''Content-Type'', hvalue = Some ''text/html''\<rparr>])
        ''location''
       = JStr []"
proof -
  let ?srv = "\<lparr>hname = Some ''Server'', hvalue = Some ''nginx''\<rparr>"
  let ?ct = "\<lparr>hname = Some ''Content-Type'', hvalue = Some ''text/html''\<rparr>"
  have l1: "toLowerCase ''Content-Type'' = ''content-type''"
    by (simp add: toLowerCase_def lower_char_def)
  have l2: "toLowerCase ''content-type'' = ''content-type''"
    by (simp add: toLowerCase_def lower_char_def)
  have l3: "toLowerCase ''CONTENT-TYPE'' = ''content-type''"
    by (simp add: toLowerCase_def lower_char_def)
  have l4: "toLowerCase ''Server'' = ''server''"
    by (simp add: toLowerCase_def lower_char_def)
  have l5: "toLowerCase ''location'' = ''location''"
    by (simp add: toLowerCase_def lower_char_def)
  have pre: "\<forall>e' n'. Some e' \<in> set [None, Some ?srv] \<and> hname e' = Some n' \<and> n' \<noteq> []
      \<longrightarrow> toLowerCase n' \<noteq> toLowerCase ''content-type''"
    by (auto simp: l2 l4)
  have a: "getHeaderValue (Some ([None, Some ?srv] @ Some ?ct # [])) ''content-type''
      = of_str (hvalue ?ct)"
    using header_lookup [of "''content-type''" "''content-type''" None "[]" "[None, Some ?srv]" ?ct
        "''Content-Type''" "[]"] pre l1 l2
    by simp
  have b: "getHeaderValue (Some [None, Some ?srv, Some ?ct]) ''CONTENT-TYPE''
      = getHeaderValue (Some [None, Some ?srv, Some ?ct]) ''content-type''"
    using header_lookup [of "''CONTENT-TYPE''" "''content-type''" "Some [None, Some ?srv, Some ?ct]"]
      l2 l3
    by simp
  have absent: "\<forall>e n. Some e \<in> set [None, Some ?srv, Some ?ct] \<and> hname e = Some n \<and> n \<noteq> []
      \<longrightarrow> toLowerCase n \<noteq> toLowerCase ''location''"
    by (auto simp: l1 l4 l5)
  have c: "getHeaderValue (Some [None, Some ?srv, Some ?ct]) ''location'' = JStr []"
    using header_lookup [of "''location''" "''location''" None "[None, Some ?srv, Some ?ct]"] absent
    by blast
  show ?thesis using a b c l1 l2 by (simp add: of_str_def)
qed

section \<open>CSV rendering of falsy fields\<close>

lemma get_cong_cell:
  "get r1 h = get r2 h \<or> (\<not> truthy (get r1 h) \<and> \<not> truthy (get r2 h))
   \<Longrightarrow> csv_cell r1 h = csv_cell r2 h"
  by (auto simp: csv_cell_def js_or_def)

text \<open>
  Claim C10. The CSV rendering of no records is the empty string. For a non-empty list it
  is the header row (the keys of the first record) and one row per record, each cell
  rendered by \<open>csv_cell\<close>; a cell whose value is falsy is a pair of double quotes. Two
  record lists with the same keys in the first record, whose fields agree wherever one
  of them is truthy, have the same rendering: a zero cannot be told from an absent
  field.
\<close>

theorem csv_falsy_fields:
  "convertToCSV [] = []
   \<and> (data \<noteq> [] \<longrightarrow>
        convertToCSV data =
          join [CHR 0x0A]
            (join '','' (keys (hd data))
             # map (\<lambda>row. join '','' (map (csv_cell row) (keys (hd data)))) data))
   \<and> (\<not> truthy (get row h) \<longrightarrow> csv_cell row h = [CHR 0x22, CHR 0x22])
   \<and> (d1 \<noteq> [] \<and> length d1 = length d2 \<and> keys (hd d1) = keys (hd d2)
        \<and> (\<forall>i < length d1. \<forall>h \<in> set (keys (hd d1)).
              get (d1 ! i) h = get (d2 ! i) h
              \<or> (\<not> truthy (get (d1 ! i) h) \<and> \<not> truthy (get (d2 ! i) h)))
        \<longrightarrow> convertToCSV d1 = convertToCSV d2)"
proof -
  have a: "convertToCSV [] = []" by (simp add: convertToCSV_def)
  have b: "convertToCSV data =
          join [CHR 0x0A]
            (join '','' (keys (hd data))
             # map (\<lambda>row. join '','' (map (csv_cell row) (keys (hd data)))) data)"
    if "data \<noteq> []" for data
    using that by (simp add: convertToCSV_def Let_def hd_conv_nth)
  have c: "csv_cell row h = [CHR 0x22, CHR 0x22]" if "\<not> truthy (get row h)"
    using that by (simp add: csv_cell_def js_or_def)
  have d: "convertToCSV d1 = convertToCSV d2"
    if ne: "d1 \<noteq> []" and len: "length d1 = length d2" and k: "keys (hd d1) = keys (hd d2)"
      and v: "\<forall>i < length d1. \<forall>h \<in> set (keys (hd d1)).
              get (d1 ! i) h = get (d2 ! i) h
              \<or> (\<not> truthy (get (d1 ! i) h) \<and> \<not> truthy (get (d2 ! i) h))"
  proof -
    have ne2: "d2 \<noteq> []" using ne len by auto
    have rows: "map (\<lambda>row. join '','' (map (csv_cell row) (keys (hd d1)))) d1
        = map (\<lambda>row. join '','' (map (csv_cell row) (keys (hd d1)))) d2"
    proof (rule nth_equalityI)
      show "length (map (\<lambda>row. join '','' (map (csv_cell row) (keys (hd d1)))) d1)
          = length (map (\<lambda>row. join '','' (map (csv_cell row) (keys (hd d1)))) d2)"
        using len by simp
    next
      fix i
      assume "i < length (map (\<lambda>row. join '','' (map (csv_cell row) (keys (hd d1)))) d1)"
      then have i: "i < length d1" by simp
      have cells: "map (csv_cell (d1 ! i)) (keys (hd d1)) = map (csv_cell (d2 ! i)) (keys (hd d1))"
        using v i by (auto intro: get_cong_cell)
      show "map (\<lambda>row. join '','' (map (csv_cell row) (keys (hd d1)))) d1 ! i
          = map (\<lambda>row. join '','' (map (csv_cell row) (keys (hd d1)))) d2 ! i"
        using i len by (simp add: cells)
    qed
    show ?thesis
      unfolding b [OF ne] b [OF ne2] using rows k by simp
  qed
  show ?thesis using a b c d by blast
qed

theorem csv_falsy_fields_witness:
  "convertToCSV [] = []
   \<and> convertToCSV [[(''url'', JStr ''u''), (''content_length'', JNum 0)],
                   [(''url'', JStr ''v''), (''content_length'', JNum 0)]]
     = convertToCSV [[(''url'', JStr ''u''), (''content_length'', JNull)],
                     [(''url'', JStr ''v'')]]
   \<and> csv_cell [(''url'', JStr ''v''), (''content_length'', JNum 0)] ''content_length''
     = [CHR 0x22, CHR 0x22]
   \<and> csv_cell [(''url'', JStr ''v'')] ''content_length'' = [CHR 0x22, CHR 0x22]"
proof -
  let ?d1 = "[[(''url'', JStr ''u''), (''content_length'', JNum 0)],
              [(''url'', JStr ''v''), (''content_length'', JNum 0)]]"
  let ?d2 = "[[(''url'', JStr ''u''), (''content_length'', JNull)],
              [(''url'', JStr ''v'')]]"
  have v: "\<forall>i < length ?d1. \<forall>h \<in> set (keys (hd ?d1)).
              get (?d1 ! i) h = get (?d2 ! i) h
              \<or> (\<not> truthy (get (?d1 ! i) h) \<and> \<not> truthy (get (?d2 ! i) h))"
    by (simp add: keys_def get_def All_less_Suc2 less_Suc_eq)
  have k: "keys (hd ?d1) = keys (hd ?d2)" by (simp add: keys_def)
  have f1: "\<not> truthy (get [(''url'', JStr ''v''), (''content_length'', JNum 0)] ''content_length'')"
    by (simp add: get_def)
  have f2: "\<not> truthy (get [(''url'', JStr ''v'')] ''content_length'')"
    by (simp add: get_def)
  have e: "convertToCSV ?d1 = convertToCSV ?d2"
    using csv_falsy_fields [of _ _ _ ?d1 ?d2, THEN conjunct2, THEN conjunct2, THEN conjunct2] v k
    by simp
  have c1: "csv_cell [(''url'', JStr ''v''), (''content_length'', JNum 0)] ''content_length''
     = [CHR 0x22, CHR 0x22]"
    using csv_falsy_fields [of _ "[(''url'', JStr ''v''), (''content_length'', JNum 0)]"
        "''content_length''", THEN conjunct2, THEN conjunct2, THEN conjunct1] f1 by blast
  have c2: "csv_cell [(''url'', JStr ''v'')] ''content_length'' = [CHR 0x22, CHR 0x22]"
    using csv_falsy_fields [of _ "[(''url'', JStr ''v'')]"
        "''content_length''", THEN conjunct2, THEN conjunct2, THEN conjunct1] f2 by blast
  have a: "convertToCSV [] = []"
    using csv_falsy_fields [THEN conjunct1] .
  show ?thesis using a e c1 c2 by simp
qed

section \<open>Correlation of the three phases\<close>

lemma handleRequest_excluded:
  "extractDomain P (url_arg d) \<in> disabledDomains s \<Longrightarrow> handleRequest P J s k d win now = s"
  by (simp add: handleRequest_def)

lemma handleResponse_absent:
  "pending s k = None \<Longrightarrow> handleResponse J s k d = s"
  by (simp add: handleResponse_def updateRequestData_def getRequestData_def)

lemma handleCompleted_absent:
  "pending s k = None \<Longrightarrow> handleCompleted s k d add_ok ls_ok = s"
  by (simp add: handleCompleted_unfold cleanupRequestData_def getRequestData_def fun_upd_idem)

lemma step_other_key:
  "event_key e \<noteq> Some k \<Longrightarrow> pending s k = None \<Longrightarrow> pending (step P J s e) k = None"
  by (cases e)
    (auto simp: handleRequest_def handleResponse_def handleCompleted_unfold storeRequestData_def
      updateRequestData_def cleanupRequestData_def storeCompleteRequest_def Let_def
      getRequestData_def startMonitoring_def stopMonitoring_def disableDomain_def
      enableDomain_def split: option.splits)

lemma step_same_key:
  assumes "event_key e = Some k" and "pending s k = None"
    and "excluded_at_phase1 P J k s (e # es)"
  shows "step P J s e = s"
proof (cases e)
  case (Phase1 k' d win now)
  with assms show ?thesis by (simp add: handleRequest_excluded)
next
  case (Phase2 k' d)
  with assms show ?thesis by (simp add: handleResponse_absent)
next
  case (Phase3 k' d a l)
  with assms show ?thesis by (simp add: handleCompleted_absent)
qed (use assms in simp_all)

lemma run_Cons: "run P J s (e # es) = run P J (step P J s e) es"
  by (simp add: run_def)

lemma run_excluded:
  "pending s k = None \<Longrightarrow> excluded_at_phase1 P J k s evs \<Longrightarrow>
   pending (run P J s evs) k = None
   \<and> run P J s evs = run P J s (filter (\<lambda>e. event_key e \<noteq> Some k) evs)"
proof (induction evs arbitrary: s)
  case Nil
  then show ?case by (simp add: run_def)
next
  case (Cons e es)
  show ?case
  proof (cases "event_key e = Some k")
    case True
    have same: "step P J s e = s" using True Cons.prems by (rule step_same_key)
    have "excluded_at_phase1 P J k s es" using Cons.prems(2) same by simp
    from Cons.IH [OF Cons.prems(1) this]
    have a: "pending (run P J s es) k = None"
      and b: "run P J s es = run P J s (filter (\<lambda>e. event_key e \<noteq> Some k) es)"
      by blast+
    have r: "run P J s (e # es) = run P J s es" by (simp add: run_Cons same)
    have f: "filter (\<lambda>e. event_key e \<noteq> Some k) (e # es)
        = filter (\<lambda>e. event_key e \<noteq> Some k) es"
      using True by simp
    show ?thesis unfolding r f using a b by (rule conjI)
  next
    case False
    have p: "pending (step P J s e) k = None"
      using False Cons.prems(1) by (rule step_other_key)
    have "excluded_at_phase1 P J k (step P J s e) es" using Cons.prems(2) by simp
    from Cons.IH [OF p this]
    have a: "pending (run P J (step P J s e) es) k = None"
      and b: "run P J (step P J s e) es
          = run P J (step P J s e) (filter (\<lambda>e. event_key e \<noteq> Some k) es)"
      by blast+
    have f: "filter (\<lambda>e. event_key e \<noteq> Some k) (e # es)
        = e # filter (\<lambda>e. event_key e \<noteq> Some k) es"
      using False by simp
    show ?thesis unfolding f run_Cons using a b by (rule conjI)
  qed
qed

text \<open>
  Claim C1. A request-initiated event whose URL resolves to a disabled domain leaves the
  monitor as it was, so it creates no pending record. With no pending record under a
  key, the headers-received and the completed event for that key leave the monitor as it
  was. Hence, from a state where the key is not pending, along any run in which every
  request-initiated event for the key is excluded at its arrival, the key is never
  pending and the final state is the one reached without the key's events: no record of
  that key is written to the store.
\<close>

theorem excluded_domain_never_pending:
  "(extractDomain P (url_arg d) \<in> disabledDomains s \<longrightarrow> handleRequest P J s k d win now = s)
   \<and> (pending s k = None \<longrightarrow>
        handleResponse J s k rd = s \<and> handleCompleted s k cd add_ok ls_ok = s)
   \<and> (pending s k = None \<and> excluded_at_phase1 P J k s evs \<longrightarrow>
        pending (run P J s evs) k = None
        \<and> run P J s evs = run P J s (filter (\<lambda>e. event_key e \<noteq> Some k) evs))"
  using handleRequest_excluded [of P d s J k win now] handleResponse_absent [of s k J rd]
    handleCompleted_absent [of s k cd add_ok ls_ok] run_excluded [of s k P J evs]
  by blast

theorem excluded_domain_never_pending_witness:
  "pending initial ''r2'' = None
   \<and> excluded_at_phase1 sample_parser sample_stringify ''r2'' initial
        [DisableDomain ''example.com'',
         Phase1 ''r2'' \<lparr>d_method = Some ''GET'', d_url = Some ''https://example.com/b'',
            d_tabId = Some 7, d_frameId = Some 0, d_requestHeaders = None\<rparr> (Some 3) ''t0'',
         Phase2 ''r2'' \<lparr>d_statusCode = Some 200, d_statusLine = Some ''HTTP/1.1 200 OK'',
            d_responseHeaders = None\<rparr>,
         Phase3 ''r2'' \<lparr>c_requestHeaders = None\<rparr> True True]
   \<and> run sample_parser sample_stringify initial
        [DisableDomain ''example.com'',
         Phase1 ''r2'' \<lparr>d_method = Some ''GET'', d_url = Some ''https://example.com/b'',
            d_tabId = Some 7, d_frameId = Some 0, d_requestHeaders = None\<rparr> (Some 3) ''t0'',
         Phase2 ''r2'' \<lparr>d_statusCode = Some 200, d_statusLine = Some ''HTTP/1.1 200 OK'',
            d_responseHeaders = None\<rparr>,
         Phase3 ''r2'' \<lparr>c_requestHeaders = None\<rparr> True True]
       = disableDomain initial ''example.com''
   \<and> db (run sample_parser sample_stringify initial
        [DisableDomain ''example.com'',
         Phase1 ''r2'' \<lparr>d_method = Some ''GET'', d_url = Some ''https://example.com/b'',
            d_tabId = Some 7, d_frameId = Some 0, d_requestHeaders = None\<rparr> (Some 3) ''t0'',
         Phase2 ''r2'' \<lparr>d_statusCode = Some 200, d_statusLine = Some ''HTTP/1.1 200 OK'',
            d_responseHeaders = None\<rparr>,
         Phase3 ''r2'' \<lparr>c_requestHeaders = None\<rparr> True True]) = []"
proof -
  let ?d = "\<lparr>d_method = Some ''GET'', d_url = Some ''https://example.com/b'',
            d_tabId = Some 7, d_frameId = Some 0, d_requestHeaders = None\<rparr>"
  let ?evs = "[DisableDomain ''example.com'',
         Phase1 ''r2'' ?d (Some 3) ''t0'',
         Phase2 ''r2'' \<lparr>d_statusCode = Some 200, d_statusLine = Some ''HTTP/1.1 200 OK'',
            d_responseHeaders = None\<rparr>,
         Phase3 ''r2'' \<lparr>c_requestHeaders = None\<rparr> True True]"
  have dom: "extractDomain sample_parser (url_arg ?d) = ''example.com''"
    by (simp add: extractDomain_def url_arg_def of_str_def sample_parser_def)
  have p: "pending initial ''r2'' = None" by (simp add: initial_def)
  have dis: "disabledDomains (disableDomain initial ''example.com'') = {''example.com''}"
    by (simp add: disableDomain_def initial_def)
  have s1: "handleRequest sample_parser sample_stringify (disableDomain initial ''example.com'')
      ''r2'' ?d (Some 3) ''t0'' = disableDomain initial ''example.com''"
    by (rule handleRequest_excluded) (simp add: dom dis)
  have pd: "pending (disableDomain initial ''example.com'') ''r2'' = None"
    by (simp add: disableDomain_def initial_def)
  have ex: "excluded_at_phase1 sample_parser sample_stringify ''r2'' initial ?evs"
    by (simp add: dom dis s1 handleResponse_absent handleCompleted_absent pd)
  have r: "run sample_parser sample_stringify initial
      (filter (\<lambda>e. event_key e \<noteq> Some ''r2'') ?evs) = disableDomain initial ''example.com''"
    by (simp add: run_def)
  have "run sample_parser sample_stringify initial ?evs = disableDomain initial ''example.com''"
    using excluded_domain_never_pending [of sample_parser _ initial _ "''r2''" _ _ _ _ _ _ ?evs,
        THEN conjunct2, THEN conjunct2] p ex r
    by simp
  then show ?thesis using p ex by (simp add: disableDomain_def initial_def)
qed

text \<open>
  A completed event behind a closed gate, a completed event whose record the store
  rejects, and two overlapping completed events. In the first two runs the key reaches
  its completed event with a pending record, yet no record is stored and the pending
  entry stays. In the third, both calls find the pending record and two records are
  stored.
\<close>

theorem finalize_exactly_once_counterexample:
  "db (run sample_parser sample_stringify initial
        [Phase1 ''r1'' \<lparr>d_method = Some ''GET'', d_url = Some ''https://example.com/a.js'',
            d_tabId = Some 7, d_frameId = Some 0, d_requestHeaders = None\<rparr> (Some 3) ''t0'',
         StopMonitoring,
         Phase3 ''r1'' \<lparr>c_requestHeaders = None\<rparr> True True]) = []
   \<and> pending (run sample_parser sample_stringify initial
        [Phase1 ''r1'' \<lparr>d_method = Some ''GET'', d_url = Some ''https://example.com/a.js'',
            d_tabId = Some 7, d_frameId = Some 0, d_requestHeaders = None\<rparr> (Some 3) ''t0'',
         StopMonitoring,
         Phase3 ''r1'' \<lparr>c_requestHeaders = None\<rparr> True True]) ''r1''
       = Some (requestData_of sample_parser sample_stringify
            \<lparr>d_method = Some ''GET'', d_url = Some ''https://example.com/a.js'',
              d_tabId = Some 7, d_frameId = Some 0, d_requestHeaders = None\<rparr> (Some 3) ''t0'')
   \<and> db (run sample_parser sample_stringify initial
        [Phase1 ''r1'' \<lparr>d_method = Some ''GET'', d_url = Some ''https://example.com/a.js'',
            d_tabId = Some 7, d_frameId = Some 0, d_requestHeaders = None\<rparr> (Some 3) ''t0'',
         Phase3 ''r1'' \<lparr>c_requestHeaders = None\<rparr> False True]) = []
   \<and> pending (run sample_parser sample_stringify initial
        [Phase1 ''r1'' \<lparr>d_method = Some ''GET'', d_url = Some ''https://example.com/a.js'',
            d_tabId = Some 7, d_frameId = Some 0, d_requestHeaders = None\<rparr> (Some 3) ''t0'',
         Phase3 ''r1'' \<lparr>c_requestHeaders = None\<rparr> False True]) ''r1''
       = Some (requestData_of sample_parser sample_stringify
            \<lparr>d_method = Some ''GET'', d_url = Some ''https://example.com/a.js'',
              d_tabId = Some 7, d_frameId = Some 0, d_requestHeaders = None\<rparr> (Some 3) ''t0'')
   \<and> length (db (handleCompleted_overlapping
        (run sample_parser sample_stringify initial
          [Phase1 ''r1'' \<lparr>d_method = Some ''GET'', d_url = Some ''https://example.com/a.js'',
              d_tabId = Some 7, d_frameId = Some 0, d_requestHeaders = None\<rparr> (Some 3) ''t0''])
        ''r1'' \<lparr>c_requestHeaders = None\<rparr> \<lparr>c_requestHeaders = None\<rparr>)) = 2"
proof -
  let ?d = "\<lparr>d_method = Some ''GET'', d_url = Some ''https://example.com/a.js'',
            d_tabId = Some 7, d_frameId = Some 0, d_requestHeaders = None\<rparr>"
  let ?c = "\<lparr>c_requestHeaders = None\<rparr>"
  let ?r = "requestData_of sample_parser sample_stringify ?d (Some 3) ''t0''"
  let ?s1 = "initial\<lparr>pending := [''r1'' \<mapsto> ?r]\<rparr>"
  have dom: "extractDomain sample_parser (url_arg ?d) = ''example.com''"
    by (simp add: extractDomain_def url_arg_def of_str_def sample_parser_def)
  have s1: "handleRequest sample_parser sample_stringify initial ''r1'' ?d (Some 3) ''t0'' = ?s1"
    by (simp add: handleRequest_def dom initial_def storeRequestData_def)
  have gate: "handleCompleted (stopMonitoring ?s1) ''r1'' ?c True True = stopMonitoring ?s1"
    by (simp add: handleCompleted_unfold stopMonitoring_def)
  have rej: "handleCompleted ?s1 ''r1'' ?c False True = ?s1"
    by (simp add: handleCompleted_unfold initial_def getRequestData_def storeCompleteRequest_def
        Let_def)
  have ov: "length (db (handleCompleted_overlapping ?s1 ''r1'' ?c ?c)) = 2"
    by (simp add: handleCompleted_overlapping_def completed_lookup_def completed_store_def
        initial_def getRequestData_def storeCompleteRequest_def Let_def cleanupRequestData_def)
  show ?thesis
    by (simp add: run_def s1 gate rej ov) (simp add: stopMonitoring_def initial_def)
qed

text \<open>
  Claim C2, as the script behaves. While monitoring, a completed event for a key with a
  pending record, whose record the store accepts and whose steps no other completed
  event for the key interrupts, appends exactly one record to the store (the pending
  record merged with the request headers' fields), removes the pending entry of that key
  and leaves the other keys' entries alone; a completed event for the key that comes
  after it changes nothing, whatever its inputs. In general a completed event for a key
  that is not pending changes nothing. With monitoring off, or when the store rejects
  the record, a completed event changes nothing either: no record is stored and the
  pending entry stays.
\<close>

theorem finalize_exactly_once:
  "(isMonitoring s \<and> pending s k = Some r \<longrightarrow>
      db (handleCompleted s k d True ls_ok)
        = db s @ [stored_record (spread r (additionalHeaders_of d))]
      \<and> length (db (handleCompleted s k d True ls_ok)) = length (db s) + 1
      \<and> pending (handleCompleted s k d True ls_ok) k = None
      \<and> (\<forall>k'. k' \<noteq> k \<longrightarrow> pending (handleCompleted s k d True ls_ok) k' = pending s k')
      \<and> handleCompleted (handleCompleted s k d True ls_ok) k d' add_ok' ls_ok'
          = handleCompleted s k d True ls_ok)
   \<and> (pending s k = None \<longrightarrow> handleCompleted s k d add_ok ls_ok = s)
   \<and> (\<not> isMonitoring s \<longrightarrow> handleCompleted s k d add_ok ls_ok = s)
   \<and> (isMonitoring s \<and> pending s k = Some r \<longrightarrow> handleCompleted s k d False ls_ok = s)"
proof -
  have fin: "db (handleCompleted s k d True ls_ok)
        = db s @ [stored_record (spread r (additionalHeaders_of d))]
      \<and> length (db (handleCompleted s k d True ls_ok)) = length (db s) + 1
      \<and> pending (handleCompleted s k d True ls_ok) k = None
      \<and> (\<forall>k'. k' \<noteq> k \<longrightarrow> pending (handleCompleted s k d True ls_ok) k' = pending s k')"
    if "isMonitoring s" "pending s k = Some r"
    using that
    by (simp add: handleCompleted_unfold getRequestData_def storeCompleteRequest_def Let_def
        cleanupRequestData_def)
  have dup: "handleCompleted (handleCompleted s k d True ls_ok) k d' add_ok' ls_ok'
          = handleCompleted s k d True ls_ok"
    if "isMonitoring s" "pending s k = Some r"
    using fin [OF that] by (simp add: handleCompleted_absent)
  have gate: "handleCompleted s k d add_ok ls_ok = s" if "\<not> isMonitoring s"
    using that by (simp add: handleCompleted_unfold)
  have rej: "handleCompleted s k d False ls_ok = s" if "isMonitoring s" "pending s k = Some r"
    using that
    by (simp add: handleCompleted_unfold getRequestData_def storeCompleteRequest_def Let_def)
  show ?thesis
    using fin dup gate rej handleCompleted_absent [of s k d add_ok ls_ok] by blast
qed

theorem finalize_exactly_once_witness:
  "isMonitoring (run sample_parser sample_stringify initial
        [Phase1 ''r1'' \<lparr>d_method = Some ''GET'', d_url = Some ''https://example.com/a.js'',
            d_tabId = Some 7, d_frameId = Some 0, d_requestHeaders = None\<rparr> (Some 3) ''t0''])
   \<and> pending (run sample_parser sample_stringify initial
        [Phase1 ''r1'' \<lparr>d_method = Some ''GET'', d_url = Some ''https://example.com/a.js'',
            d_tabId = Some 7, d_frameId = Some 0, d_requestHeaders = None\<rparr> (Some 3) ''t0'']) ''r1''
       = Some (requestData_of sample_parser sample_stringify
            \<lparr>d_method = Some ''GET'', d_url = Some ''https://example.com/a.js'',
              d_tabId = Some 7, d_frameId = Some 0, d_requestHeaders = None\<rparr> (Some 3) ''t0'')
   \<and> length (db (run sample_parser sample_stringify initial
        [Phase1 ''r1'' \<lparr>d_method = Some ''GET'', d_url = Some ''https://example.com/a.js'',
            d_tabId = Some 7, d_frameId = Some 0, d_requestHeaders = None\<rparr> (Some 3) ''t0'',
         Phase3 ''r1'' \<lparr>c_requestHeaders = None\<rparr> True True,
         Phase3 ''r1'' \<lparr>c_requestHeaders = None\<rparr> True True])) = 1
   \<and> pending (run sample_parser sample_stringify initial
        [Phase1 ''r1'' \<lparr>d_method = Some ''GET'', d_url = Some ''https://example.com/a.js'',
            d_tabId = Some 7, d_frameId = Some 0, d_requestHeaders = None\<rparr> (Some 3) ''t0'',
         Phase3 ''r1'' \<lparr>c_requestHeaders = None\<rparr> True True,
         Phase3 ''r1'' \<lparr>c_requestHeaders = None\<rparr> True True]) ''r1'' = None
   \<and> \<not> isMonitoring (stopMonitoring initial)
   \<and> handleCompleted (stopMonitoring initial) ''r1'' \<lparr>c_requestHeaders = None\<rparr> True True
       = stopMonitoring initial
   \<and> handleCompleted (run sample_parser sample_stringify initial
        [Phase1 ''r1'' \<lparr>d_method = Some ''GET'', d_url = Some ''https://example.com/a.js'',
            d_tabId = Some 7, d_frameId = Some 0, d_requestHeaders = None\<rparr> (Some 3) ''t0''])
        ''r1'' \<lparr>c_requestHeaders = None\<rparr> False True
       = run sample_parser sample_stringify initial
        [Phase1 ''r1'' \<lparr>d_method = Some ''GET'', d_url = Some ''https://example.com/a.js'',
            d_tabId = Some 7, d_frameId = Some 0, d_requestHeaders = None\<rparr> (Some 3) ''t0'']"
proof -
  let ?d = "\<lparr>d_method = Some ''GET'', d_url = Some ''https://example.com/a.js'',
            d_tabId = Some 7, d_frameId = Some 0, d_requestHeaders = None\<rparr>"
  let ?c = "\<lparr>c_requestHeaders = None\<rparr>"
  let ?s1 = "run sample_parser sample_stringify initial [Phase1 ''r1'' ?d (Some 3) ''t0'']"
  let ?r = "requestData_of sample_parser sample_stringify ?d (Some 3) ''t0''"
  have dom: "extractDomain sample_parser (url_arg ?d) = ''example.com''"
    by (simp add: extractDomain_def url_arg_def of_str_def sample_parser_def)
  have s1: "?s1 = initial\<lparr>pending := [''r1'' \<mapsto> ?r]\<rparr>"
    by (simp add: run_def handleRequest_def dom initial_def storeRequestData_def)
  have m: "isMonitoring ?s1" unfolding s1 by (simp add: initial_def)
  have p: "pending ?s1 ''r1'' = Some ?r" unfolding s1 by simp
  have d0: "db ?s1 = []" unfolding s1 by (simp add: initial_def)
  note t = finalize_exactly_once [of ?s1 "''r1''" ?r ?c True ?c True True, THEN conjunct1,
      rule_format, OF conjI [OF m p]]
  have r3: "run sample_parser sample_stringify initial
        [Phase1 ''r1'' ?d (Some 3) ''t0'', Phase3 ''r1'' ?c True True, Phase3 ''r1'' ?c True True]
      = handleCompleted (handleCompleted ?s1 ''r1'' ?c True True) ''r1'' ?c True True"
    by (simp add: run_def)
  have e: "handleCompleted (handleCompleted ?s1 ''r1'' ?c True True) ''r1'' ?c True True
      = handleCompleted ?s1 ''r1'' ?c True True"
    using t by blast
  have l: "length (db (handleCompleted ?s1 ''r1'' ?c True True)) = 1"
    using t d0 by simp
  have q: "pending (handleCompleted ?s1 ''r1'' ?c True True) ''r1'' = None"
    using t by blast
  have off: "\<not> isMonitoring (stopMonitoring initial)"
    by (simp add: stopMonitoring_def)
  have g: "handleCompleted (stopMonitoring initial) ''r1'' ?c True True = stopMonitoring initial"
    using finalize_exactly_once [of "stopMonitoring initial" "''r1''" ?r ?c True ?c True True True,
        THEN conjunct2, THEN conjunct2, THEN conjunct1] off
    by blast
  have j: "handleCompleted ?s1 ''r1'' ?c False True = ?s1"
    using finalize_exactly_once [of ?s1 "''r1''" ?r ?c True ?c True True True,
        THEN conjunct2, THEN conjunct2, THEN conjunct2] m p
    by blast
  show ?thesis
    unfolding r3 e using m p l q off g j by (intro conjI)
qed

text \<open>
  A duplicate request-initiated event. After the first two phases the pending record of
  \<open>r1\<close> holds the response code 200. A second request-initiated event for \<open>r1\<close>
  stores a fresh record under the key: the response code is gone and the time stamp is
  the new one.
\<close>

theorem duplicate_phase1_counterexample:
  "map_option (\<lambda>r. get r ''response_code'')
     (pending (run sample_parser sample_stringify initial
        [Phase1 ''r1'' \<lparr>d_method = Some ''GET'', d_url = Some ''https://example.com/a.js'',
            d_tabId = Some 7, d_frameId = Some 0, d_requestHeaders = None\<rparr> (Some 3) ''t0'',
         Phase2 ''r1'' \<lparr>d_statusCode = Some 200, d_statusLine = Some ''HTTP/1.1 200 OK'',
            d_responseHeaders = None\<rparr>]) ''r1'')
     = Some (JNum 200)
   \<and> map_option (\<lambda>r. get r ''response_code'')
     (pending (run sample_parser sample_stringify initial
        [Phase1 ''r1'' \<lparr>d_method = Some ''GET'', d_url = Some ''https://example.com/a.js'',
            d_tabId = Some 7, d_frameId = Some 0, d_requestHeaders = None\<rparr> (Some 3) ''t0'',
         Phase2 ''r1'' \<lparr>d_statusCode = Some 200, d_statusLine = Some ''HTTP/1.1 200 OK'',
            d_responseHeaders = None\<rparr>,
         Phase1 ''r1'' \<lparr>d_method = Some ''GET'', d_url = Some ''https://example.com/a.js'',
            d_tabId = Some 7, d_frameId = Some 0, d_requestHeaders = None\<rparr> (Some 3) ''t1'']) ''r1'')
     = Some JUndefined
   \<and> map_option (\<lambda>r. get r ''timestamp'')
     (pending (run sample_parser sample_stringify initial
        [Phase1 ''r1'' \<lparr>d_method = Some ''GET'', d_url = Some ''https://example.com/a.js'',
            d_tabId = Some 7, d_frameId = Some 0, d_requestHeaders = None\<rparr> (Some 3) ''t0'',
         Phase2 ''r1'' \<lparr>d_statusCode = Some 200, d_statusLine = Some ''HTTP/1.1 200 OK'',
            d_responseHeaders = None\<rparr>,
         Phase1 ''r1'' \<lparr>d_method = Some ''GET'', d_url = Some ''https://example.com/a.js'',
            d_tabId = Some 7, d_frameId = Some 0, d_requestHeaders = None\<rparr> (Some 3) ''t1'']) ''r1'')
     = Some (JStr ''t1'')"
proof -
  let ?d = "\<lparr>d_method = Some ''GET'', d_url = Some ''https://example.com/a.js'',
            d_tabId = Some 7, d_frameId = Some 0, d_requestHeaders = None\<rparr>"
  let ?rd = "\<lparr>d_statusCode = Some 200, d_statusLine = Some ''HTTP/1.1 200 OK'',
            d_responseHeaders = None\<rparr>"
  have dom: "extractDomain sample_parser (url_arg ?d) = ''example.com''"
    by (simp add: extractDomain_def url_arg_def of_str_def sample_parser_def)
  have g0: "get (requestData_of sample_parser sample_stringify ?d (Some 3) now) ''response_code''
      = JUndefined" for now
    by (simp add: requestData_of_def get_def)
  have g1: "get (requestData_of sample_parser sample_stringify ?d (Some 3) now) ''timestamp''
      = JStr now" for now
    by (simp add: requestData_of_def get_def)
  have g2: "get (spread (requestData_of sample_parser sample_stringify ?d (Some 3) now)
        (responseData_of sample_stringify ?rd)) ''response_code'' = JNum 200" for now
    by (simp add: requestData_of_def responseData_of_def spread_def get_def Let_def
        of_num_def js_or_def)
  show ?thesis
    by (simp add: run_def handleRequest_def handleResponse_def dom initial_def
        storeRequestData_def updateRequestData_def getRequestData_def g0 g1 g2)
qed

text \<open>
  Claim C3, as the script behaves. For a key that already has a pending record, a
  duplicate request-initiated event replaces that record by the record built from the
  new event alone when monitoring is on and the domain of the new URL is not disabled;
  when monitoring is off or the domain is disabled the monitor stays as it was. The
  pending records of other keys and the record store are never touched.
\<close>

theorem duplicate_phase1_replaces:
  "pending s k = Some r \<longrightarrow>
     (isMonitoring s \<and> extractDomain P (url_arg d) \<notin> disabledDomains s \<longrightarrow>
        pending (handleRequest P J s k d win now) k = Some (requestData_of P J d win now))
     \<and> (\<not> isMonitoring s \<or> extractDomain P (url_arg d) \<in> disabledDomains s \<longrightarrow>
          handleRequest P J s k d win now = s)
     \<and> (\<forall>k'. k' \<noteq> k \<longrightarrow> pending (handleRequest P J s k d win now) k' = pending s k')
     \<and> db (handleRequest P J s k d win now) = db s"
  by (simp add: handleRequest_def storeRequestData_def)


theorem duplicate_phase1_replaces_witness:
  "pending (run sample_parser sample_stringify initial
        [Phase1 ''r1'' \<lparr>d_method = Some ''GET'', d_url = Some ''https://example.com/a.js'',
            d_tabId = Some 7, d_frameId = Some 0, d_requestHeaders = None\<rparr> (Some 3) ''t0'',
         Phase2 ''r1'' \<lparr>d_statusCode = Some 200, d_statusLine = Some ''HTTP/1.1 200 OK'',
            d_responseHeaders = None\<rparr>]) ''r1''
     = Some (spread
         (requestData_of sample_parser sample_stringify
            \<lparr>d_method = Some ''GET'', d_url = Some ''https://example.com/a.js'',
              d_tabId = Some 7, d_frameId = Some 0, d_requestHeaders = None\<rparr> (Some 3) ''t0'')
         (responseData_of sample_stringify
            \<lparr>d_statusCode = Some 200, d_statusLine = Some ''HTTP/1.1 200 OK'',
              d_responseHeaders = None\<rparr>))
   \<and> pending (handleRequest sample_parser sample_stringify
        (run sample_parser sample_stringify initial
          [Phase1 ''r1'' \<lparr>d_method = Some ''GET'', d_url = Some ''https://example.com/a.js'',
              d_tabId = Some 7, d_frameId = Some 0, d_requestHeaders = None\<rparr> (Some 3) ''t0'',
           Phase2 ''r1'' \<lparr>d_statusCode = Some 200, d_statusLine = Some ''HTTP/1.1 200 OK'',
              d_responseHeaders = None\<rparr>])
        ''r1''
        \<lparr>d_method = Some ''GET'', d_url = Some ''https://example.com/a.js'',
          d_tabId = Some 7, d_frameId = Some 0, d_requestHeaders = None\<rparr> (Some 3) ''t1'') ''r1''
     = Some (requestData_of sample_parser sample_stringify
            \<lparr>d_method = Some ''GET'', d_url = Some ''https://example.com/a.js'',
              d_tabId = Some 7, d_frameId = Some 0, d_requestHeaders = None\<rparr> (Some 3) ''t1'')"
proof -
  let ?d = "\<lparr>d_method = Some ''GET'', d_url = Some ''https://example.com/a.js'',
            d_tabId = Some 7, d_frameId = Some 0, d_requestHeaders = None\<rparr>"
  let ?rd = "\<lparr>d_statusCode = Some 200, d_statusLine = Some ''HTTP/1.1 200 OK'',
            d_responseHeaders = None\<rparr>"
  let ?s = "run sample_parser sample_stringify initial
      [Phase1 ''r1'' ?d (Some 3) ''t0'', Phase2 ''r1'' ?rd]"
  let ?r = "spread (requestData_of sample_parser sample_stringify ?d (Some 3) ''t0'')
      (responseData_of sample_stringify ?rd)"
  have dom: "extractDomain sample_parser (url_arg ?d) = ''example.com''"
    by (simp add: extractDomain_def url_arg_def of_str_def sample_parser_def)
  have s: "?s = initial\<lparr>pending := [''r1'' \<mapsto> ?r]\<rparr>"
    by (simp add: run_def handleRequest_def handleResponse_def dom initial_def
        storeRequestData_def updateRequestData_def getRequestData_def)
  have p: "pending ?s ''r1'' = Some ?r" unfolding s by simp
  have m: "isMonitoring ?s \<and> extractDomain sample_parser (url_arg ?d) \<notin> disabledDomains ?s"
    unfolding s by (simp add: initial_def dom)
  have "pending (handleRequest sample_parser sample_stringify ?s ''r1'' ?d (Some 3) ''t1'') ''r1''
      = Some (requestData_of sample_parser sample_stringify ?d (Some 3) ''t1'')"
    using duplicate_phase1_replaces [of ?s "''r1''" ?r sample_parser ?d sample_stringify "Some 3"
        "''t1''"] p m
    by blast
  with p show ?thesis by (rule conjI)
qed

section \<open>The summary\<close>

lemma tally_Nil: "tally m f [] = m"
  by (simp add: tally_def)

lemma tally_Cons:
  "tally m f (r # rs) =
     tally (case f r of
              None \<Rightarrow> m
            | Some k \<Rightarrow> m(k \<mapsto> (case m k of None \<Rightarrow> 0 | Some c \<Rightarrow> c) + 1)) f rs"
  by (simp add: tally_def)

lemma tally_lookup:
  "tally m f data k =
     (let n = length (filter (\<lambda>r. f r = Some k) data) in
      if n = 0 then m k else Some ((case m k of None \<Rightarrow> 0 | Some c \<Rightarrow> c) + n))"
proof (induction data arbitrary: m)
  case Nil
  show ?case by (simp add: tally_Nil)
next
  case (Cons r rs)
  show ?case
    by (cases "f r") (auto simp: tally_Cons Cons.IH Let_def)
qed

lemma tally_empty: "tally Map.empty f data = group_count f data"
  by (rule ext) (simp add: tally_lookup group_count_def Let_def)

lemma as_counter_empty: "as_counter Map.empty = Map.empty"
  by (simp add: as_counter_def)

lemma inherited_text_plain:
  "k \<notin> set object_prototype_names \<Longrightarrow> inherited_text k = None"
proof -
  assume n: "k \<notin> set object_prototype_names"
  have "''__proto__'' \<in> set object_prototype_names"
    and "''constructor'' \<in> set object_prototype_names"
    by (simp_all add: object_prototype_names_def)
  with n have "k \<noteq> ''__proto__''" and "k \<noteq> ''constructor''" by blast+
  with n show ?thesis by (simp add: inherited_text_def)
qed

lemma increment_plain:
  assumes "k \<notin> set object_prototype_names"
  shows "increment (as_counter m) k
           = as_counter (m(k \<mapsto> (case m k of None \<Rightarrow> 0 | Some c \<Rightarrow> c) + 1))"
proof (cases "m k")
  case None
  then show ?thesis
    by (simp add: increment_def as_counter_def inherited_text_plain [OF assms] js_or_def
        fun_eq_iff)
next
  case (Some c)
  then show ?thesis
    by (simp add: increment_def as_counter_def js_or_def fun_eq_iff)
qed

lemma counter_pass_Nil: "counter_pass obj f [] = obj"
  by (simp add: counter_pass_def)

lemma counter_pass_Cons:
  "counter_pass obj f (r # rs)
     = counter_pass (case f r of None \<Rightarrow> obj | Some k \<Rightarrow> increment obj k) f rs"
  by (simp add: counter_pass_def)

lemma counter_pass_plain:
  "\<forall>r \<in> set data. \<forall>k. f r = Some k \<longrightarrow> k \<notin> set object_prototype_names \<Longrightarrow>
   counter_pass (as_counter m) f data = as_counter (tally m f data)"
proof (induction data arbitrary: m)
  case Nil
  show ?case by (simp add: counter_pass_Nil tally_Nil)
next
  case (Cons r rs)
  then have rest: "\<forall>r \<in> set rs. \<forall>k. f r = Some k \<longrightarrow> k \<notin> set object_prototype_names"
    by simp
  show ?case
  proof (cases "f r")
    case None
    then show ?thesis by (simp add: counter_pass_Cons tally_Cons Cons.IH [OF rest])
  next
    case (Some k)
    with Cons.prems have k: "k \<notin> set object_prototype_names" by simp
    let ?m = "m(k \<mapsto> (case m k of None \<Rightarrow> 0 | Some c \<Rightarrow> c) + 1)"
    have "counter_pass (as_counter m) f (r # rs)
        = counter_pass (increment (as_counter m) k) f rs"
      by (simp only: counter_pass_Cons Some option.case)
    also have "\<dots> = counter_pass (as_counter ?m) f rs"
      by (simp only: increment_plain [OF k])
    also have "\<dots> = as_counter (tally ?m f rs)"
      by (rule Cons.IH [OF rest])
    also have "\<dots> = as_counter (tally m f (r # rs))"
      by (simp only: tally_Cons Some option.case)
    finally show ?thesis .
  qed
qed

lemma counter_pass_counts:
  "\<forall>r \<in> set data. \<forall>k. f r = Some k \<longrightarrow> k \<notin> set object_prototype_names \<Longrightarrow>
   counter_pass Map.empty f data = as_counter (group_count f data)"
  using counter_pass_plain [of data f Map.empty]
  by (simp add: as_counter_empty tally_empty)

lemma major_type_split:
  "get r ''content_type'' = JStr ct \<Longrightarrow> ct \<noteq> [] \<Longrightarrow>
   major_type r = Some (str_split CHR '';'' ct ! 0)"
  by (simp add: major_type_def hd_str_split [symmetric] hd_conv_nth str_split_nonempty)

lemma count_request_ok:
  assumes "content_type_ok r"
  shows "count_request sm r =
     Inr (sm\<lparr>methods := increment (methods sm) (js_toString (get r ''method'')),
             status_codes := increment (status_codes sm) (js_toString (get r ''response_code'')),
             content_types :=
               (case major_type r of None \<Rightarrow> content_types sm
                | Some t \<Rightarrow> increment (content_types sm) t),
             protocols := increment (protocols sm) (js_toString (get r ''protocol''))\<rparr>)"
proof (cases "get r ''content_type''")
  case (JStr ct)
  show ?thesis
  proof (cases "ct = []")
    case True
    with JStr show ?thesis by (simp add: count_request_def Let_def major_type_def)
  next
    case False
    with JStr show ?thesis
      by (simp add: count_request_def Let_def major_type_split)
  qed
qed (use assms in \<open>simp_all add: count_request_def Let_def major_type_def content_type_ok_def\<close>)

lemma count_request_error:
  "\<not> content_type_ok r \<Longrightarrow> count_request sm r = Inl TypeError"
  by (cases "get r ''content_type''")
    (simp_all add: count_request_def Let_def content_type_ok_def)

lemma forEach_count_ok:
  "\<forall>r \<in> set data. content_type_ok r \<Longrightarrow>
   forEach_count sm data =
     Inr (sm\<lparr>methods :=
               counter_pass (methods sm) (\<lambda>r. Some (js_toString (get r ''method''))) data,
             status_codes :=
               counter_pass (status_codes sm)
                 (\<lambda>r. Some (js_toString (get r ''response_code''))) data,
             content_types := counter_pass (content_types sm) major_type data,
             protocols :=
               counter_pass (protocols sm) (\<lambda>r. Some (js_toString (get r ''protocol''))) data\<rparr>)"
proof (induction data arbitrary: sm)
  case Nil
  show ?case by (simp add: counter_pass_Nil)
next
  case (Cons r rs)
  then have ok: "content_type_ok r" and rest: "\<forall>r \<in> set rs. content_type_ok r" by simp_all
  show ?case
    by (simp add: count_request_ok [OF ok] Cons.IH [OF rest] counter_pass_Cons)
qed

lemma forEach_count_error:
  "\<exists>r \<in> set data. \<not> content_type_ok r \<Longrightarrow> forEach_count sm data = Inl TypeError"
proof (induction data arbitrary: sm)
  case Nil
  then show ?case by simp
next
  case (Cons r rs)
  show ?case
  proof (cases "content_type_ok r")
    case True
    with Cons.prems have "\<exists>r \<in> set rs. \<not> content_type_ok r" by simp
    then show ?thesis by (simp add: count_request_ok [OF True] Cons.IH)
  next
    case False
    then show ?thesis by (simp add: count_request_error)
  qed
qed

lemma summary_ok_keys:
  assumes "summary_ok r"
  shows "content_type_ok r"
    and "js_toString (get r ''method'') \<notin> set object_prototype_names"
    and "js_toString (get r ''response_code'') \<notin> set object_prototype_names"
    and "js_toString (get r ''protocol'') \<notin> set object_prototype_names"
    and "major_type r = Some t \<Longrightarrow> t \<notin> set object_prototype_names"
  using assms by (simp_all add: summary_ok_def group_keys_def)

text \<open>
  Claim C4, as the script behaves. Take records whose \<open>content_type\<close> is a string or a
  falsy value and whose method, response code, major content type and protocol are not
  names of members of \<open>Object.prototype\<close>. Then \<open>generateSummary\<close> returns a summary
  whose total is the number of records, whose domain count is the number of distinct
  host names of the records' URLs, and whose four counting objects hold, for each
  method, response code, major content type (the text before the first semicolon of a
  non-empty content type) and protocol, the number of records in that group. A record
  whose \<open>content_type\<close> is a truthy non-string makes the call fail with a \<open>TypeError\<close>.
\<close>

theorem summary_counts:
  "((\<forall>r \<in> set data. summary_ok r) \<longrightarrow>
      (\<exists>sm. generateSummary P data = Inr sm
            \<and> total_requests sm = length data
            \<and> unique_domains sm = card (summary_hostname P ` set data)
            \<and> methods sm
                = as_counter (group_count (\<lambda>r. Some (js_toString (get r ''method''))) data)
            \<and> status_codes sm
                = as_counter
                    (group_count (\<lambda>r. Some (js_toString (get r ''response_code''))) data)
            \<and> content_types sm = as_counter (group_count major_type data)
            \<and> protocols sm
                = as_counter (group_count (\<lambda>r. Some (js_toString (get r ''protocol''))) data)))
   \<and> ((\<exists>r \<in> set data. \<not> content_type_ok r) \<longrightarrow> generateSummary P data = Inl TypeError)"
proof -
  have ok: "\<exists>sm. generateSummary P data = Inr sm
            \<and> total_requests sm = length data
            \<and> unique_domains sm = card (summary_hostname P ` set data)
            \<and> methods sm
                = as_counter (group_count (\<lambda>r. Some (js_toString (get r ''method''))) data)
            \<and> status_codes sm
                = as_counter
                    (group_count (\<lambda>r. Some (js_toString (get r ''response_code''))) data)
            \<and> content_types sm = as_counter (group_count major_type data)
            \<and> protocols sm
                = as_counter (group_count (\<lambda>r. Some (js_toString (get r ''protocol''))) data)"
    if all: "\<forall>r \<in> set data. summary_ok r"
  proof -
    have ct: "\<forall>r \<in> set data. content_type_ok r"
      using all summary_ok_keys(1) by blast
    have m: "counter_pass Map.empty (\<lambda>r. Some (js_toString (get r ''method''))) data
        = as_counter (group_count (\<lambda>r. Some (js_toString (get r ''method''))) data)"
      using all summary_ok_keys(2) by (intro counter_pass_counts) auto
    have c: "counter_pass Map.empty (\<lambda>r. Some (js_toString (get r ''response_code''))) data
        = as_counter (group_count (\<lambda>r. Some (js_toString (get r ''response_code''))) data)"
      using all summary_ok_keys(3) by (intro counter_pass_counts) auto
    have t: "counter_pass Map.empty major_type data = as_counter (group_count major_type data)"
      using all summary_ok_keys(5) by (intro counter_pass_counts) blast
    have p: "counter_pass Map.empty (\<lambda>r. Some (js_toString (get r ''protocol''))) data
        = as_counter (group_count (\<lambda>r. Some (js_toString (get r ''protocol''))) data)"
      using all summary_ok_keys(4) by (intro counter_pass_counts) auto
    show ?thesis
      unfolding generateSummary_def forEach_count_ok [OF ct]
      by (simp add: m c t p)
  qed
  have err: "generateSummary P data = Inl TypeError" if "\<exists>r \<in> set data. \<not> content_type_ok r"
    unfolding generateSummary_def using that by (rule forEach_count_error)
  show ?thesis using ok err by blast
qed

text \<open>
  The summary of the background script carries no total content length: two record sets
  whose total content lengths differ have the same summary.
\<close>

theorem summary_counts_counterexample:
  "generateSummary sample_parser [[(''content_length'', JNum 10)]]
     = generateSummary sample_parser [[(''content_length'', JNum 20)]]
   \<and> total_content_length [[(''content_length'', JNum 10)]]
     \<noteq> total_content_length [[(''content_length'', JNum 20)]]"
  by (simp add: generateSummary_def count_request_def Let_def get_def summary_hostname_def
      total_content_length_def)


text \<open>
  Group keys that name members of \<open>Object.prototype\<close>: the counting object then holds
  a string, or nothing, where a count would be.
\<close>

lemma summary_inherited_names:
  "increment Map.empty ''constructor'' ''constructor''
     = Some (JStr ''function Object() { [native code] }1'')
   \<and> increment (increment Map.empty ''toString'') ''toString'' ''toString''
     = Some (JStr ''function toString() { [native code] }11'')
   \<and> increment Map.empty ''__proto__'' = Map.empty
   \<and> increment (increment Map.empty ''GET'') ''GET'' ''GET'' = Some (JNum 2)"
  by (simp add: increment_def inherited_text_def object_prototype_names_def js_or_def)

theorem summary_counts_witness:
  "summary_ok
     [(''method'', JStr ''GET''), (''response_code'', JNum 200),
      (''content_type'', JStr ''text/html; charset=utf-8''), (''protocol'', JStr ''https''),
      (''url'', JStr ''https://example.com/a.js'')]
   \<and> summary_ok
     [(''method'', JStr ''GET''), (''response_code'', JNum 404),
      (''content_type'', JStr []), (''protocol'', JStr ''http''),
      (''url'', JStr ''http://test.org:8080/x/y/'')]
   \<and> (\<exists>sm. generateSummary sample_parser
          [[(''method'', JStr ''GET''), (''response_code'', JNum 200),
            (''content_type'', JStr ''text/html; charset=utf-8''), (''protocol'', JStr ''https''),
            (''url'', JStr ''https://example.com/a.js'')],
           [(''method'', JStr ''GET''), (''response_code'', JNum 404),
            (''content_type'', JStr []), (''protocol'', JStr ''http''),
            (''url'', JStr ''http://test.org:8080/x/y/'')]] = Inr sm
        \<and> total_requests sm = 2
        \<and> unique_domains sm = 2
        \<and> methods sm ''GET'' = Some (JNum 2)
        \<and> status_codes sm ''404'' = Some (JNum 1)
        \<and> content_types sm ''text/html'' = Some (JNum 1)
        \<and> content_types sm [] = None
        \<and> protocols sm ''https'' = Some (JNum 1))"
proof -
  let ?r1 = "[(''method'', JStr ''GET''), (''response_code'', JNum 200),
      (''content_type'', JStr ''text/html; charset=utf-8''), (''protocol'', JStr ''https''),
      (''url'', JStr ''https://example.com/a.js'')]"
  let ?r2 = "[(''method'', JStr ''GET''), (''response_code'', JNum 404),
      (''content_type'', JStr []), (''protocol'', JStr ''http''),
      (''url'', JStr ''http://test.org:8080/x/y/'')]"
  have m1: "major_type ?r1 = Some ''text/html''" by (simp add: major_type_def get_def)
  have m2: "major_type ?r2 = None" by (simp add: major_type_def get_def)
  have k1: "group_keys ?r1 = [''GET'', ''200'', ''https'', ''text/html'']"
    by (simp add: group_keys_def m1 get_def intToString_def natToString.simps)
  have k2: "group_keys ?r2 = [''GET'', ''404'', ''http'']"
    by (simp add: group_keys_def m2 get_def intToString_def natToString.simps)
  have ok1: "summary_ok ?r1"
    unfolding summary_ok_def k1
    by (simp add: content_type_ok_def get_def js_exact_def object_prototype_names_def)
  have ok2: "summary_ok ?r2"
    unfolding summary_ok_def k2
    by (simp add: content_type_ok_def get_def js_exact_def object_prototype_names_def)
  have ok: "\<forall>r \<in> set [?r1, ?r2]. summary_ok r" using ok1 ok2 by simp
  have h1: "summary_hostname sample_parser ?r1 = ''example.com''"
    by (simp add: summary_hostname_def get_def sample_parser_def)
  have h2: "summary_hostname sample_parser ?r2 = ''test.org''"
    by (simp add: summary_hostname_def get_def sample_parser_def)
  have c: "card (summary_hostname sample_parser ` set [?r1, ?r2]) = 2"
    by (simp add: h1 h2)
  have g: "group_count (\<lambda>r. Some (js_toString (get r ''method''))) [?r1, ?r2] ''GET'' = Some 2"
    by (simp add: group_count_def get_def)
  have s: "group_count (\<lambda>r. Some (js_toString (get r ''response_code''))) [?r1, ?r2] ''404'' = Some 1"
    by (simp add: group_count_def get_def intToString_def natToString.simps)
  have t1: "group_count major_type [?r1, ?r2] ''text/html'' = Some 1"
    by (simp add: group_count_def m1 m2)
  have t2: "group_count major_type [?r1, ?r2] [] = None"
    by (simp add: group_count_def m1 m2)
  have p: "group_count (\<lambda>r. Some (js_toString (get r ''protocol''))) [?r1, ?r2] ''https'' = Some 1"
    by (simp add: group_count_def get_def)
  from summary_counts [of "[?r1, ?r2]" sample_parser, THEN conjunct1, THEN mp, OF ok]
  obtain sm where sm: "generateSummary sample_parser [?r1, ?r2] = Inr sm"
    "total_requests sm = length [?r1, ?r2]"
    "unique_domains sm = card (summary_hostname sample_parser ` set [?r1, ?r2])"
    "methods sm = as_counter (group_count (\<lambda>r. Some (js_toString (get r ''method''))) [?r1, ?r2])"
    "status_codes sm
       = as_counter (group_count (\<lambda>r. Some (js_toString (get r ''response_code''))) [?r1, ?r2])"
    "content_types sm = as_counter (group_count major_type [?r1, ?r2])"
    "protocols sm
       = as_counter (group_count (\<lambda>r. Some (js_toString (get r ''protocol''))) [?r1, ?r2])"
    by blast
  have "generateSummary sample_parser [?r1, ?r2] = Inr sm
        \<and> total_requests sm = 2
        \<and> unique_domains sm = 2
        \<and> methods sm ''GET'' = Some (JNum 2)
        \<and> status_codes sm ''404'' = Some (JNum 1)
        \<and> content_types sm ''text/html'' = Some (JNum 1)
        \<and> content_types sm [] = None
        \<and> protocols sm ''https'' = Some (JNum 1)"
    unfolding sm(2-7) using sm(1) c g s t1 t2 p by (simp add: as_counter_def)
  then show ?thesis using ok1 ok2 by blast
qed

section \<open>The SQL script\<close>

lemma createSQLiteDatabase_concat:
  "createSQLiteDatabase data = sqlite_header @ createTableSQL @ concat (map insertSQL data)"
proof -
  have "foldl (\<lambda>sqliteContent record. sqliteContent @ insertSQL record) acc data
      = acc @ concat (map insertSQL data)" for acc
    by (induction data arbitrary: acc) simp_all
  then show ?thesis by (simp add: createSQLiteDatabase_def)
qed

lemma createTableSQL_columns:
  "declared_columns createTableSQL =
     [''id'', ''timestamp'', ''method'', ''protocol'', ''port'', ''url'', ''filename'', ''domain'',
      ''user_agent'', ''referer'', ''origin'', ''cookie'', ''vary'', ''x_forwarded_for'',
      ''content_type'', ''response_code'', ''response_message'', ''date'', ''server'',
      ''content_length'', ''location'', ''response_preview'', ''response_checksum'', ''tab_id'',
      ''window_id'', ''request_headers'', ''response_headers'']"
  by code_simp

lemma createTableSQL_first_line:
  "str_split (CHR 0x0A) createTableSQL ! 1
     = ''      CREATE TABLE IF NOT EXISTS network_requests (''"
  by code_simp

lemma no_insert_in_empty_export:
  "\<not> sublist ''INSERT'' (sqlite_header @ createTableSQL)"
  by code_simp

text \<open>
  The \<open>CREATE TABLE\<close> statement of the export of no records declares 27 columns.
\<close>

theorem empty_export_counterexample:
  "length (declared_columns (drop (length sqlite_header) (createSQLiteDatabase []))) = 27"
  by (simp add: createSQLiteDatabase_def createTableSQL_columns)

text \<open>
  Claim C7, as the script behaves. The export of no records is the header
  \<open>SQLite format 3\<close> with its NUL character, followed by the \<open>CREATE TABLE IF NOT EXISTS\<close>
  statement, which declares 27 columns: \<open>id\<close> and the 26 columns that the \<open>INSERT\<close>
  statement fills. It contains no \<open>INSERT\<close>; every export is this text followed by one
  \<open>INSERT\<close> statement per record.
\<close>

theorem empty_export:
  "createSQLiteDatabase [] = ''SQLite format 3'' @ [CHR 0x00] @ createTableSQL
   \<and> str_split (CHR 0x0A) createTableSQL ! 1
       = ''      CREATE TABLE IF NOT EXISTS network_requests (''
   \<and> declared_columns createTableSQL =
     [''id'', ''timestamp'', ''method'', ''protocol'', ''port'', ''url'', ''filename'', ''domain'',
      ''user_agent'', ''referer'', ''origin'', ''cookie'', ''vary'', ''x_forwarded_for'',
      ''content_type'', ''response_code'', ''response_message'', ''date'', ''server'',
      ''content_length'', ''location'', ''response_preview'', ''response_checksum'', ''tab_id'',
      ''window_id'', ''request_headers'', ''response_headers'']
   \<and> length (declared_columns createTableSQL) = 27
   \<and> \<not> sublist ''INSERT'' (createSQLiteDatabase [])
   \<and> createSQLiteDatabase data = createSQLiteDatabase [] @ concat (map insertSQL data)"
proof -
  have e: "createSQLiteDatabase [] = sqlite_header @ createTableSQL"
    by (simp add: createSQLiteDatabase_def)
  have l: "length (declared_columns createTableSQL) = 27"
    by (simp add: createTableSQL_columns)
  show ?thesis
    unfolding e
    using createTableSQL_columns createTableSQL_first_line no_insert_in_empty_export l
      createSQLiteDatabase_concat [of data]
    by (simp add: sqlite_header_def)
qed

lemma map_of_set_field: "map_of (set_field f v r) g = (if g = f then Some v else map_of r g)"
  by (induction r arbitrary: g) simp_all

lemma get_set_field: "get (set_field f v r) g = (if g = f then v else get r g)"
  by (simp add: get_def map_of_set_field)

lemma sql_raw_set_field: "g \<noteq> f \<Longrightarrow> sql_raw (set_field f v r) g = sql_raw r g"
  by (simp add: sql_raw_def get_set_field)

lemma sql_text_set_field:
  "\<not> truthy v \<Longrightarrow> \<not> truthy (get r f) \<Longrightarrow> sql_text (set_field f v r) g = sql_text r g"
  by (simp add: sql_text_def get_set_field js_or_def)

lemma sql_num_set_field:
  "\<not> truthy v \<Longrightarrow> \<not> truthy (get r f) \<Longrightarrow> sql_num (set_field f v r) g = sql_num r g"
  by (simp add: sql_num_def get_set_field js_or_def)

lemma insertSQL_cong:
  assumes "sql_raw r1 ''timestamp'' = sql_raw r2 ''timestamp''"
    and "sql_raw r1 ''method'' = sql_raw r2 ''method''"
    and "sql_raw r1 ''protocol'' = sql_raw r2 ''protocol''"
    and "sql_raw r1 ''url'' = sql_raw r2 ''url''"
    and "sql_raw r1 ''filename'' = sql_raw r2 ''filename''"
    and "sql_raw r1 ''domain'' = sql_raw r2 ''domain''"
    and "\<And>g. sql_text r1 g = sql_text r2 g"
    and "\<And>g. sql_num r1 g = sql_num r2 g"
  shows "insertSQL r1 = insertSQL r2"
  by (simp only: insertSQL_def assms)

lemma numeric_not_raw:
  "f \<in> set numeric_columns \<Longrightarrow>
   ''timestamp'' \<noteq> f \<and> ''method'' \<noteq> f \<and> ''protocol'' \<noteq> f \<and> ''url'' \<noteq> f
   \<and> ''filename'' \<noteq> f \<and> ''domain'' \<noteq> f"
  by (auto simp: numeric_columns_def)

lemma insertSQL_falsy_numeric:
  assumes "f \<in> set numeric_columns" and "\<not> truthy (get record f)"
  shows "insertSQL (set_field f JUndefined record) = insertSQL record"
proof (rule insertSQL_cong)
  note n = numeric_not_raw [OF assms(1)]
  show "sql_raw (set_field f JUndefined record) ''timestamp'' = sql_raw record ''timestamp''"
    by (rule sql_raw_set_field) (rule n [THEN conjunct1])
  show "sql_raw (set_field f JUndefined record) ''method'' = sql_raw record ''method''"
    by (rule sql_raw_set_field) (rule n [THEN conjunct2, THEN conjunct1])
  show "sql_raw (set_field f JUndefined record) ''protocol'' = sql_raw record ''protocol''"
    by (rule sql_raw_set_field) (rule n [THEN conjunct2, THEN conjunct2, THEN conjunct1])
  show "sql_raw (set_field f JUndefined record) ''url'' = sql_raw record ''url''"
    by (rule sql_raw_set_field)
      (rule n [THEN conjunct2, THEN conjunct2, THEN conjunct2, THEN conjunct1])
  show "sql_raw (set_field f JUndefined record) ''filename'' = sql_raw record ''filename''"
    by (rule sql_raw_set_field)
      (rule n [THEN conjunct2, THEN conjunct2, THEN conjunct2, THEN conjunct2, THEN conjunct1])
  show "sql_raw (set_field f JUndefined record) ''domain'' = sql_raw record ''domain''"
    by (rule sql_raw_set_field)
      (rule n [THEN conjunct2, THEN conjunct2, THEN conjunct2, THEN conjunct2, THEN conjunct2])
  have u: "\<not> truthy JUndefined" by simp
  show "sql_text (set_field f JUndefined record) g = sql_text record g" for g
    using u assms(2) by (rule sql_text_set_field)
  show "sql_num (set_field f JUndefined record) g = sql_num record g" for g
    using u assms(2) by (rule sql_num_set_field)
qed


lemma intToString_chars: "set (intToString n) \<subseteq> set ''-0123456789''"
proof -
  have e: "set ''-0123456789'' = insert CHR ''-'' (set ''0123456789'')"
    by (rule list.set(2))
  show ?thesis
  proof (cases "n < 0")
    case True
    then have "set (intToString n) = insert CHR ''-'' (set (natToString (nat (- n))))"
      by (simp add: intToString_def)
    then show ?thesis
      unfolding e using natToString_digits [of "nat (- n)"] by blast
  next
    case False
    then have "set (intToString n) = set (natToString (nat n))"
      by (simp add: intToString_def)
    then show ?thesis
      unfolding e using natToString_digits [of "nat n"] by blast
  qed
qed

lemma sql_num_number_or_null:
  assumes "numeric_ok record" and "f \<in> set numeric_columns"
  shows "sql_num record f = number_or_null (get record f)"
proof -
  from assms have "case get record f of
               JUndefined \<Rightarrow> True
             | JNull \<Rightarrow> True
             | JNum n \<Rightarrow> \<bar>n\<bar> < 9007199254740992
             | _ \<Rightarrow> False"
    by (simp add: numeric_ok_def list_all_iff)
  then show ?thesis
    by (cases "get record f") (simp_all add: sql_num_def number_or_null_def js_or_def)
qed

lemma insertSQL_numeric:
  assumes "numeric_ok record"
  shows "insertSQL record =
     template
       [''        INSERT INTO network_requests ('',
        ''          timestamp, method, protocol, port, url, filename, domain,'',
        ''          user_agent, referer, origin, cookie, vary, x_forwarded_for,'',
        ''          content_type, response_code, response_message, date, server,'',
        ''          content_length, location, response_preview, response_checksum,'',
        ''          tab_id, window_id, request_headers, response_headers'',
        ''        ) VALUES ('',
        ''          '' @ sql_raw record ''timestamp'' @ '', '' @ sql_raw record ''method'' @ '', '' @ sql_raw record ''protocol'' @ '', '' @ number_or_null (get record ''port'') @ '','',
        ''          '' @ sql_raw record ''url'' @ '', '' @ sql_raw record ''filename'' @ '', '' @ sql_raw record ''domain'' @ '','',
        ''          '' @ sql_text record ''user_agent'' @ '', '' @ sql_text record ''referer'' @ '', '' @ sql_text record ''origin'' @ '','',
        ''          '' @ sql_text record ''cookie'' @ '', '' @ sql_text record ''vary'' @ '', '' @ sql_text record ''x_forwarded_for'' @ '','',
        ''          '' @ sql_text record ''content_type'' @ '', '' @ number_or_null (get record ''response_code'') @ '', '' @ sql_text record ''response_message'' @ '','',
        ''          '' @ sql_text record ''date'' @ '', '' @ sql_text record ''server'' @ '', '' @ number_or_null (get record ''content_length'') @ '','',
        ''          '' @ sql_text record ''location'' @ '', '' @ sql_text record ''response_preview'' @ '', '' @ sql_text record ''response_checksum'' @ '','',
        ''          '' @ number_or_null (get record ''tab_id'') @ '', '' @ number_or_null (get record ''window_id'') @ '','',
        ''          '' @ sql_text record ''request_headers'' @ '', '' @ sql_text record ''response_headers'',
        ''        );'',
        ''      '']"
proof -
  have m: "''port'' \<in> set numeric_columns" "''response_code'' \<in> set numeric_columns"
    "''content_length'' \<in> set numeric_columns" "''tab_id'' \<in> set numeric_columns"
    "''window_id'' \<in> set numeric_columns"
    by (simp_all add: numeric_columns_def)
  show ?thesis
    by (simp only: insertSQL_def m sql_num_number_or_null [OF assms])
qed

text \<open>
  Claim C5, as the script behaves. For a record whose numeric fields are absent,
  \<open>null\<close> or numbers, the \<open>INSERT\<close> statement is the template with each of the five
  numeric columns filled by \<open>number_or_null\<close>: the bare decimal number (digits and a
  sign, no quotes) when the field holds a number other than zero, and \<open>NULL\<close> when the
  field is absent, \<open>null\<close> or zero. Replacing a falsy numeric field by \<open>undefined\<close>
  leaves the statement as it was, so a zero cannot be told from an absent field.
\<close>

theorem sql_numeric_columns:
  "(numeric_ok record \<longrightarrow>
      insertSQL record =
     template
       [''        INSERT INTO network_requests ('',
        ''          timestamp, method, protocol, port, url, filename, domain,'',
        ''          user_agent, referer, origin, cookie, vary, x_forwarded_for,'',
        ''          content_type, response_code, response_message, date, server,'',
        ''          content_length, location, response_preview, response_checksum,'',
        ''          tab_id, window_id, request_headers, response_headers'',
        ''        ) VALUES ('',
        ''          '' @ sql_raw record ''timestamp'' @ '', '' @ sql_raw record ''method'' @ '', '' @ sql_raw record ''protocol'' @ '', '' @ number_or_null (get record ''port'') @ '','',
        ''          '' @ sql_raw record ''url'' @ '', '' @ sql_raw record ''filename'' @ '', '' @ sql_raw record ''domain'' @ '','',
        ''          '' @ sql_text record ''user_agent'' @ '', '' @ sql_text record ''referer'' @ '', '' @ sql_text record ''origin'' @ '','',
        ''          '' @ sql_text record ''cookie'' @ '', '' @ sql_text record ''vary'' @ '', '' @ sql_text record ''x_forwarded_for'' @ '','',
        ''          '' @ sql_text record ''content_type'' @ '', '' @ number_or_null (get record ''response_code'') @ '', '' @ sql_text record ''response_message'' @ '','',
        ''          '' @ sql_text record ''date'' @ '', '' @ sql_text record ''server'' @ '', '' @ number_or_null (get record ''content_length'') @ '','',
        ''          '' @ sql_text record ''location'' @ '', '' @ sql_text record ''response_preview'' @ '', '' @ sql_text record ''response_checksum'' @ '','',
        ''          '' @ number_or_null (get record ''tab_id'') @ '', '' @ number_or_null (get record ''window_id'') @ '','',
        ''          '' @ sql_text record ''request_headers'' @ '', '' @ sql_text record ''response_headers'',
        ''        );'',
        ''      ''])
   \<and> (n \<noteq> 0 \<longrightarrow>
        number_or_null (JNum n) = intToString n
        \<and> set (number_or_null (JNum n)) \<subseteq> set ''-0123456789'')
   \<and> number_or_null JUndefined = ''NULL''
   \<and> number_or_null JNull = ''NULL''
   \<and> number_or_null (JNum 0) = ''NULL''
   \<and> (f \<in> set numeric_columns \<and> \<not> truthy (get record f) \<longrightarrow>
        insertSQL (set_field f JUndefined record) = insertSQL record)"
proof -
  have a: "number_or_null (JNum n) = intToString n
        \<and> set (number_or_null (JNum n)) \<subseteq> set ''-0123456789''" if "n \<noteq> 0"
    using that intToString_chars [of n] by (simp add: number_or_null_def)
  have b: "number_or_null JUndefined = ''NULL''" "number_or_null JNull = ''NULL''"
    "number_or_null (JNum 0) = ''NULL''"
    by (simp_all add: number_or_null_def)
  show ?thesis
    using insertSQL_numeric [of "record"] a b insertSQL_falsy_numeric [of f "record"]
    by blast
qed

theorem sql_numeric_columns_witness:
  "numeric_ok [(''port'', JNum 443), (''content_length'', JNum 0)]
   \<and> str_split (CHR 0x0A) (insertSQL [(''port'', JNum 443), (''content_length'', JNum 0)]) ! 8
     = ''          '' @ [CHR 0x27] @ ''undefined'' @ [CHR 0x27] @ '', ''
         @ [CHR 0x27] @ ''undefined'' @ [CHR 0x27] @ '', ''
         @ [CHR 0x27] @ ''undefined'' @ [CHR 0x27] @ '', 443,''
   \<and> str_split (CHR 0x0A) (insertSQL [(''port'', JNum 443), (''content_length'', JNum 0)]) ! 13
     = ''          '' @ [CHR 0x27, CHR 0x27] @ '', '' @ [CHR 0x27, CHR 0x27] @ '', NULL,''
   \<and> number_or_null (JNum 443) = ''443''
   \<and> insertSQL (set_field ''content_length'' JUndefined
         [(''port'', JNum 443), (''content_length'', JNum 0)])
       = insertSQL [(''port'', JNum 443), (''content_length'', JNum 0)]"
proof -
  let ?r = "[(''port'', JNum 443), (''content_length'', JNum 0)]"
  have ok: "numeric_ok ?r"
    by (simp add: numeric_ok_def numeric_columns_def get_def)
  have g2: "\<not> truthy (get ?r ''content_length'')" by (simp add: get_def)
  have i: "intToString 443 = ''443''" by (simp add: intToString_def natToString.simps)
  have m: "''content_length'' \<in> set numeric_columns" by (simp add: numeric_columns_def)
  note e = sql_numeric_columns [of ?r 443 "''content_length''", THEN conjunct1, THEN mp, OF ok]
  have l8: "str_split (CHR 0x0A) (insertSQL ?r) ! 8
     = ''          '' @ [CHR 0x27] @ ''undefined'' @ [CHR 0x27] @ '', ''
         @ [CHR 0x27] @ ''undefined'' @ [CHR 0x27] @ '', ''
         @ [CHR 0x27] @ ''undefined'' @ [CHR 0x27] @ '', 443,''"
    unfolding e
    by (simp add: template_def sql_raw_def sql_text_def number_or_null_def get_def js_or_def i)
  have l13: "str_split (CHR 0x0A) (insertSQL ?r) ! 13
     = ''          '' @ [CHR 0x27, CHR 0x27] @ '', '' @ [CHR 0x27, CHR 0x27] @ '', NULL,''"
    unfolding e
    by (simp add: template_def sql_raw_def sql_text_def number_or_null_def get_def js_or_def i)
  have n: "number_or_null (JNum 443) = ''443''"
    using sql_numeric_columns [of ?r 443 "''content_length''", THEN conjunct2, THEN conjunct1] i
    by simp
  have d: "insertSQL (set_field ''content_length'' JUndefined ?r) = insertSQL ?r"
    using sql_numeric_columns [of ?r 443 "''content_length''", THEN conjunct2, THEN conjunct2,
        THEN conjunct2, THEN conjunct2, THEN conjunct2] m g2
    by simp
  show ?thesis using ok l8 l13 n d by (intro conjI)
qed

text \<open>
  A record whose \<open>content_length\<close> is present and zero: the line of the \<open>INSERT\<close>
  statement that carries \<open>date\<close>, \<open>server\<close> and \<open>content_length\<close> ends in \<open>NULL\<close>.
\<close>

theorem sql_numeric_columns_counterexample:
  "get [(''url'', JStr ''https://example.com/a.js''), (''response_code'', JNum 200),
        (''content_length'', JNum 0)] ''content_length'' = JNum 0
   \<and> str_split (CHR 0x0A)
        (insertSQL [(''url'', JStr ''https://example.com/a.js''), (''response_code'', JNum 200),
                    (''content_length'', JNum 0)]) ! 13
     = ''          '' @ [CHR 0x27, CHR 0x27] @ '', '' @ [CHR 0x27, CHR 0x27] @ '', NULL,''"
  by code_simp

end
